theory Spec2Isabelle
  imports Main "HOL-Library.Word"
begin

section \<open>Download gatekeeper and telemetry pipeline\<close>

text \<open>
  A shallow embedding of the two browser classes of the site generator's client script,
  \<^verbatim>\<open>VentureAnalytics\<close> and \<^verbatim>\<open>DownloadManager\<close>, and of the utility
  \<^verbatim>\<open>validateDownloadEnvironment\<close>.

  \<^item> The fields of the two objects and the two \<^verbatim>\<open>localStorage\<close> keys they own are one
    record, \<open>manager\<close>, passed in and returned.
  \<^item> Everything the browser supplies (the clock, the globals that may be missing, the
    honeypot field, the random bytes, what the network answers, whether a third-party hook
    throws) is a second record, \<open>world\<close>, fixed for the duration of one call. The model
    therefore reads one instant \<open>now\<close> for all the \<^verbatim>\<open>Date.now()\<close> calls of one attempt.
  \<^item> Everything observable the code does (console output, the advisory modal, the state of
    the download buttons, each call of a telemetry sink, the click on the hidden link, the
    HEAD probe) is a value of \<open>effect\<close>; a function returns the list of its effects in
    program order.
  \<^item> A JavaScript exception is a value \<open>Inl e\<close>; \<^verbatim>\<open>try\<close>/\<^verbatim>\<open>catch\<close> is \<open>tryCatch\<close>.
  \<^item> An \<^verbatim>\<open>async\<close> function that is awaited is its body run in place; a rejected promise is
    the exception it carries. A call that is not awaited (\<^verbatim>\<open>trackError\<close>,
    \<^verbatim>\<open>trackEngagement\<close> inside the manager) is sequenced at the call, and, as in the
    source, what it raises is not seen by the caller.
  \<^item> \<open>initiateDownload\<close> is one attempt run to its end, and \<open>clicks\<close> a visit whose
    attempts do not overlap. Attempts that overlap are runs of the two halves of an attempt,
    \<open>beginDownload\<close> and \<open>finishDownload\<close>, which together are \<open>initiateDownload\<close>.
  \<^item> Strings are byte strings: a character is a code unit below 256, which is the domain on
    which \<^verbatim>\<open>btoa\<close> does not throw. Timers (\<^verbatim>\<open>setTimeout\<close>) are not modelled.
\<close>

subsection \<open>Numbers and strings\<close>

definition digit_char :: "nat \<Rightarrow> char" where
  "digit_char n = ''0123456789abcdef'' ! n"

text \<open>\<^verbatim>\<open>n.toString(radix)\<close> for a natural number and a radix from 2 to 16.\<close>

fun toString_radix :: "nat \<Rightarrow> nat \<Rightarrow> string" where
  "toString_radix radix n =
     (if radix < 2 \<or> n < radix then [digit_char n]
      else toString_radix radix (n div radix) @ [digit_char (n mod radix)])"

declare toString_radix.simps [simp del]

text \<open>The decimal form of an integral number, as \<^verbatim>\<open>JSON.stringify\<close> and \<^verbatim>\<open>String\<close> give it.\<close>

definition Number_toString :: "int \<Rightarrow> string" where
  "Number_toString i =
     (if i < 0 then CHR ''-'' # toString_radix 10 (nat (- i)) else toString_radix 10 (nat i))"

definition padStart :: "nat \<Rightarrow> char \<Rightarrow> string \<Rightarrow> string" where
  "padStart n c s = replicate (n - length s) c @ s"

text \<open>
  \<^verbatim>\<open>JSON.stringify\<close> of a string: the quotation mark, the backslash and the control
  characters are escaped, every other code unit is copied.
\<close>

definition json_escape :: "char \<Rightarrow> string" where
  "json_escape c =
     (let n = (of_char c :: nat) in
      if n = 0x22 then [char_of (0x5C :: nat), char_of (0x22 :: nat)]
      else if n = 0x5C then [char_of (0x5C :: nat), char_of (0x5C :: nat)]
      else if n = 0x08 then [char_of (0x5C :: nat), CHR ''b'']
      else if n = 0x0C then [char_of (0x5C :: nat), CHR ''f'']
      else if n = 0x0A then [char_of (0x5C :: nat), CHR ''n'']
      else if n = 0x0D then [char_of (0x5C :: nat), CHR ''r'']
      else if n = 0x09 then [char_of (0x5C :: nat), CHR ''t'']
      else if n < 0x20 then
        [char_of (0x5C :: nat), CHR ''u''] @ padStart 4 CHR ''0'' (toString_radix 16 n)
      else [c])"

definition JSON_string :: "string \<Rightarrow> string" where
  "JSON_string s = char_of (0x22 :: nat) # concat (map json_escape s) @ [char_of (0x22 :: nat)]"

text \<open>\<^verbatim>\<open>btoa\<close>: base64 with the standard alphabet and \<^verbatim>\<open>=\<close> padding.\<close>

definition base64_char :: "nat \<Rightarrow> char" where
  "base64_char n =
     ''ABCDEFGHIJKLMNOPQRSTUVWXYZabcdefghijklmnopqrstuvwxyz0123456789+/'' ! n"

fun btoa :: "string \<Rightarrow> string" where
  "btoa [] = []"
| "btoa [a] =
     (let x = (of_char a :: nat) in
      [base64_char (x div 4), base64_char ((x mod 4) * 16), CHR ''='', CHR ''=''])"
| "btoa [a, b] =
     (let x = (of_char a :: nat); y = (of_char b :: nat) in
      [base64_char (x div 4), base64_char ((x mod 4) * 16 + y div 16),
       base64_char ((y mod 16) * 4), CHR ''=''])"
| "btoa (a # b # c # rest) =
     (let x = (of_char a :: nat); y = (of_char b :: nat); z = (of_char c :: nat) in
      base64_char (x div 4) # base64_char ((x mod 4) * 16 + y div 16) #
      base64_char ((y mod 16) * 4 + z div 64) # base64_char (z mod 64) # btoa rest)"

text \<open>\<^verbatim>\<open>re.test(s)\<close> for a regular expression that is a literal word with the \<^verbatim>\<open>i\<close> flag.\<close>

definition toLowerCase :: "char \<Rightarrow> char" where
  "toLowerCase c =
     (let n = (of_char c :: nat) in if 65 \<le> n \<and> n \<le> 90 then char_of (n + 32) else c)"

fun str_includes :: "string \<Rightarrow> string \<Rightarrow> bool" where
  "str_includes pat [] = (pat = [])"
| "str_includes pat (c # cs) = (take (length pat) (c # cs) = pat \<or> str_includes pat cs)"

definition test_i :: "string \<Rightarrow> string \<Rightarrow> bool" where
  "test_i word s = str_includes (map toLowerCase word) (map toLowerCase s)"

subsection \<open>The page state, the browser and the observable effects\<close>

text \<open>The value stored under the \<^verbatim>\<open>localStorage\<close> key \<^verbatim>\<open>download_rate_limit\<close>.\<close>

record rate_limit_data =
  count :: nat
  windowStart :: int

text \<open>One element of the array stored under the key \<^verbatim>\<open>venture_conversions\<close>.\<close>

record conversion =
  c_venture :: string
  c_timestamp :: int
  c_sessionId :: string
  c_referrer :: string

text \<open>
  The fields of a \<^verbatim>\<open>DownloadManager\<close> (\<open>venture\<close> to \<open>downloadUrl\<close>, \<open>botScore\<close>,
  \<open>rateLimitCount\<close>), those of the \<^verbatim>\<open>VentureAnalytics\<close> it owns (\<open>a_venture\<close> to
  \<open>startTime\<close>), and the two storage keys; \<open>None\<close> is a key that was never written.
\<close>

record manager =
  venture :: string
  version :: string
  downloadUrl :: string
  a_venture :: string
  a_version :: string
  sessionId :: string
  startTime :: int
  botScore :: nat
  rateLimitCount :: nat
  download_rate_limit :: "rate_limit_data option"
  venture_conversions :: "conversion list"

definition rateLimitWindow :: int where
  "rateLimitWindow = 60000"

definition maxDownloadsPerWindow :: nat where
  "maxDownloadsPerWindow = 3"

text \<open>A global function hook that a page may or may not define, and that may throw.\<close>

datatype hook = Missing | Works | Raises

text \<open>What \<^verbatim>\<open>fetch\<close> settles to: a rejection, or a response with its status.\<close>

datatype response = Rejected | Status nat

definition response_ok :: "nat \<Rightarrow> bool" where
  "response_ok st = (200 \<le> st \<and> st \<le> 299)"

text \<open>
  The browser at one attempt. \<open>now\<close> is \<^verbatim>\<open>Date.now()\<close>; \<open>webdriver\<close> is
  \<^verbatim>\<open>navigator.webdriver\<close>, \<open>phantom\<close> is \<^verbatim>\<open>window.phantom || window._phantom\<close> and
  \<open>callPhantom\<close> is \<^verbatim>\<open>window.callPhantom\<close>; \<open>referrer\<close> is \<^verbatim>\<open>document.referrer\<close>; the
  fields \<open>has_\<close>... say whether a global exists (\<open>has_canvas_getContext\<close>: whether a
  canvas element has \<^verbatim>\<open>getContext\<close>); \<open>honeypot\<close> is the value of the element
  \<^verbatim>\<open>#honeypot\<close>, if the page has one; \<open>random_bytes\<close> is what \<^verbatim>\<open>crypto.getRandomValues\<close>
  writes at each index; \<open>cloudflare\<close>, \<open>gtag\<close> and \<open>sendBeacon\<close> are
  \<^verbatim>\<open>window.cloudflare.analytics.track\<close>, \<^verbatim>\<open>window.gtag\<close> and \<^verbatim>\<open>navigator.sendBeacon\<close>;
  \<open>analytics_response\<close> and \<open>head_response\<close> are what the POST to \<^verbatim>\<open>/api/analytics\<close>
  and the HEAD request for the download settle to.
\<close>

record world =
  now :: int
  webdriver :: bool
  phantom :: bool
  callPhantom :: bool
  userAgent :: string
  referrer :: string
  has_requestAnimationFrame :: bool
  has_localStorage :: bool
  has_canvas_getContext :: bool
  has_fetch :: bool
  has_Promise :: bool
  has_crypto :: bool
  honeypot :: "string option"
  random_bytes :: "nat \<Rightarrow> 8 word"
  cloudflare :: hook
  gtag :: hook
  sendBeacon :: hook
  analytics_response :: response
  head_response :: response

text \<open>
  The object handed to the sinks: the four fields every event has, and the event-specific
  fields as a list of pairs.
\<close>

record telemetry =
  event :: string
  t_venture :: string
  t_sessionId :: string
  timestamp :: int
  payload :: "(string \<times> string) list"

text \<open>The download URL before \<^verbatim>\<open>URLSearchParams\<close> serialises it.\<close>

record secure_url =
  url_base :: string
  url_token :: string
  url_venture :: string
  url_version :: string
  url_t :: int

datatype ui_state = Preparing | Success | Error

datatype effect =
    ConsoleWarn string
  | ConsoleError string
  | ShowMessage string string string
  | UpdateDownloadUI ui_state
  | CloudflareTrack telemetry
  | GtagEvent telemetry
  | FetchPost string telemetry
  | Beacon string telemetry
  | LinkClick secure_url
  | FetchHead secure_url

text \<open>A thrown value, with its message.\<close>

datatype exn = JsError string

fun message :: "exn \<Rightarrow> string" where
  "message (JsError m) = m"

text \<open>
  The outcome of running a piece of code from a manager: what it returned or threw, the
  manager afterwards, and the effects in order.
\<close>

type_synonym 'a run = "(exn + 'a) \<times> manager \<times> effect list"

definition andThen :: "'a run \<Rightarrow> ('a \<Rightarrow> manager \<Rightarrow> 'b run) \<Rightarrow> 'b run" where
  "andThen r f =
     (case r of
        (Inl e, s, out) \<Rightarrow> (Inl e, s, out)
      | (Inr a, s, out) \<Rightarrow> (case f a s of (r', s', out') \<Rightarrow> (r', s', out @ out')))"

definition tryCatch :: "'a run \<Rightarrow> (exn \<Rightarrow> manager \<Rightarrow> 'a run) \<Rightarrow> 'a run" where
  "tryCatch r handler =
     (case r of
        (Inl e, s, out) \<Rightarrow> (case handler e s of (r', s', out') \<Rightarrow> (r', s', out @ out'))
      | (Inr a, s, out) \<Rightarrow> (Inr a, s, out))"

text \<open>A call whose promise is dropped: its effects happen, its rejection is lost.\<close>

definition unawaited :: "unit run \<Rightarrow> unit run" where
  "unawaited r = (case r of (_, s, out) \<Rightarrow> (Inr (), s, out))"

definition effects :: "effect list \<Rightarrow> manager \<Rightarrow> unit run" where
  "effects out s = (Inr (), s, out)"

definition throw :: "exn \<Rightarrow> manager \<Rightarrow> 'a run" where
  "throw e s = (Inl e, s, [])"

subsection \<open>VentureAnalytics\<close>

definition getReferrer :: "world \<Rightarrow> string" where
  "getReferrer w = (if referrer w = [] then ''direct'' else referrer w)"

text \<open>
  The three sinks. A sink whose hook throws has been called: the call is an effect, and
  the exception is the result.
\<close>

definition sendToCloudflare :: "world \<Rightarrow> telemetry \<Rightarrow> manager \<Rightarrow> unit run" where
  "sendToCloudflare w data s =
     (case cloudflare w of
        Missing \<Rightarrow> (Inr (), s, [])
      | Works \<Rightarrow> (Inr (), s, [CloudflareTrack data])
      | Raises \<Rightarrow> (Inl (JsError ''cloudflare.analytics.track''), s, [CloudflareTrack data]))"

definition sendToGoogleAnalytics :: "world \<Rightarrow> telemetry \<Rightarrow> manager \<Rightarrow> unit run" where
  "sendToGoogleAnalytics w data s =
     (case gtag w of
        Missing \<Rightarrow> (Inr (), s, [])
      | Works \<Rightarrow> (Inr (), s, [GtagEvent data])
      | Raises \<Rightarrow> (Inl (JsError ''gtag''), s, [GtagEvent data]))"

text \<open>\<^verbatim>\<open>await fetch('/api/analytics', {method: 'POST', ...})\<close>\<close>

definition fetch_post :: "world \<Rightarrow> string \<Rightarrow> telemetry \<Rightarrow> manager \<Rightarrow> unit run" where
  "fetch_post w path data s =
     (if \<not> has_fetch w then (Inl (JsError ''fetch is not defined''), s, [])
      else case analytics_response w of
        Rejected \<Rightarrow> (Inl (JsError ''Failed to fetch''), s, [FetchPost path data])
      | Status st \<Rightarrow> (Inr (), s, [FetchPost path data]))"

definition navigator_sendBeacon :: "world \<Rightarrow> string \<Rightarrow> telemetry \<Rightarrow> manager \<Rightarrow> unit run" where
  "navigator_sendBeacon w path data s =
     (case sendBeacon w of
        Missing \<Rightarrow> (Inl (JsError ''navigator.sendBeacon is not a function''), s, [])
      | Works \<Rightarrow> (Inr (), s, [Beacon path data])
      | Raises \<Rightarrow> (Inl (JsError ''sendBeacon''), s, [Beacon path data]))"

definition sendToCustomEndpoint :: "world \<Rightarrow> telemetry \<Rightarrow> manager \<Rightarrow> unit run" where
  "sendToCustomEndpoint w data s =
     tryCatch (fetch_post w ''/api/analytics'' data s)
       (\<lambda>error s.
          if sendBeacon w \<noteq> Missing then navigator_sendBeacon w ''/api/analytics'' data s
          else (Inr (), s, []))"

definition sendAnalytics :: "world \<Rightarrow> telemetry \<Rightarrow> manager \<Rightarrow> unit run" where
  "sendAnalytics w data s =
     tryCatch
       (andThen (sendToCloudflare w data s) (\<lambda>_ s.
        andThen (if gtag w \<noteq> Missing then sendToGoogleAnalytics w data s else (Inr (), s, []))
          (\<lambda>_ s.
        sendToCustomEndpoint w data s)))
       (\<lambda>error s. effects [ConsoleWarn ''Analytics tracking failed:''] s)"

text \<open>
  \<^verbatim>\<open>updateConversionMetrics\<close>: the conversion record is appended to the stored array;
  without \<^verbatim>\<open>localStorage\<close> the read throws. The download counter shown on the page is
  not modelled.
\<close>

definition updateConversionMetrics :: "world \<Rightarrow> manager \<Rightarrow> unit run" where
  "updateConversionMetrics w s =
     (if \<not> has_localStorage w then throw (JsError ''localStorage is not defined'') s
      else (Inr (),
            s\<lparr>venture_conversions := venture_conversions s @
                 [\<lparr>c_venture = a_venture s, c_timestamp = now w,
                   c_sessionId = sessionId s, c_referrer = getReferrer w\<rparr>]\<rparr>,
            []))"

definition trackDownload :: "world \<Rightarrow> string \<Rightarrow> string \<Rightarrow> manager \<Rightarrow> unit run" where
  "trackDownload w url source s =
     andThen
       (sendAnalytics w
          \<lparr>event = ''download_started'', t_venture = a_venture s, t_sessionId = sessionId s,
           timestamp = now w,
           payload = [(''version'', a_version s), (''downloadUrl'', url), (''source'', source),
                      (''userAgent'', userAgent w), (''referrer'', getReferrer w),
                      (''timeOnPage'', Number_toString (now w - startTime s))]\<rparr> s)
       (\<lambda>_ s. updateConversionMetrics w s)"

definition trackEngagement :: "world \<Rightarrow> string \<Rightarrow> string \<Rightarrow> manager \<Rightarrow> unit run" where
  "trackEngagement w action element s =
     sendAnalytics w
       \<lparr>event = ''engagement'', t_venture = a_venture s, t_sessionId = sessionId s,
        timestamp = now w,
        payload = [(''action'', action), (''element'', element), (''value'', ''null''),
                   (''timeOnPage'', Number_toString (now w - startTime s))]\<rparr> s"

text \<open>
  \<^verbatim>\<open>trackError\<close> is not \<^verbatim>\<open>async\<close> and drops the promise of \<^verbatim>\<open>sendAnalytics\<close>. The
  \<^verbatim>\<open>stack\<close> and \<^verbatim>\<open>url\<close> fields of its event are left out.
\<close>

definition trackError :: "world \<Rightarrow> exn \<Rightarrow> string \<Rightarrow> manager \<Rightarrow> unit run" where
  "trackError w error context s =
     unawaited (sendAnalytics w
       \<lparr>event = ''error'', t_venture = a_venture s, t_sessionId = sessionId s,
        timestamp = now w,
        payload = [(''error'', message error), (''context'', context),
                   (''userAgent'', userAgent w)]\<rparr> s)"

subsection \<open>DownloadManager: the gates\<close>

definition suspiciousPatterns :: "string list" where
  "suspiciousPatterns =
     [''headless'', ''phantom'', ''selenium'', ''webdriver'', ''bot'', ''crawler'', ''spider'']"

definition calculateBotScore :: "world \<Rightarrow> nat" where
  "calculateBotScore w =
     min ((if webdriver w then 20 else 0)
          + (if phantom w then 30 else 0)
          + (if callPhantom w then 30 else 0)
          + sum_list (map (\<lambda>pattern. if test_i pattern (userAgent w) then 15 else 0)
                        suspiciousPatterns)
          + (if \<not> has_requestAnimationFrame w then 10 else 0)
          + (if \<not> has_localStorage w then 10 else 0)
          + (if \<not> has_canvas_getContext w then 15 else 0))
         100"

text \<open>
  \<^verbatim>\<open>initRateLimiting\<close>, run once when the page loads. With nothing stored the parsed object is
  \<^verbatim>\<open>{}\<close>, the subtraction is \<^verbatim>\<open>NaN\<close>, the comparison is false and the count is
  \<^verbatim>\<open>undefined || 0\<close>.
\<close>

definition initRateLimiting :: "world \<Rightarrow> manager \<Rightarrow> unit run" where
  "initRateLimiting w s =
     (if \<not> has_localStorage w then throw (JsError ''localStorage is not defined'') s
      else case download_rate_limit s of
        None \<Rightarrow> (Inr (), s\<lparr>rateLimitCount := 0\<rparr>, [])
      | Some rateLimitData \<Rightarrow>
          if now w - windowStart rateLimitData > rateLimitWindow
          then (Inr (),
                s\<lparr>rateLimitCount := 0,
                  download_rate_limit := Some \<lparr>count = 0, windowStart = now w\<rparr>\<rparr>,
                [])
          else (Inr (), s\<lparr>rateLimitCount := count rateLimitData\<rparr>, []))"

text \<open>
  \<^verbatim>\<open>setupSecurityChecks\<close>; the checksum file it also requests is display data and is not
  modelled.
\<close>

definition setupSecurityChecks :: "world \<Rightarrow> manager \<Rightarrow> unit run" where
  "setupSecurityChecks w s = initRateLimiting w (s\<lparr>botScore := calculateBotScore w\<rparr>)"

text \<open>Only the first argument of a console call is kept.\<close>

definition passesSecurityChecks :: "world \<Rightarrow> manager \<Rightarrow> bool run" where
  "passesSecurityChecks w s =
     (if botScore s > 50 then (Inr False, s, [ConsoleWarn ''High bot score detected:''])
      else if \<not> has_fetch w \<or> \<not> has_Promise w
        then (Inr False, s, [ConsoleWarn ''Unsupported browser environment''])
      else case honeypot w of
        None \<Rightarrow> (Inr True, s, [])
      | Some v \<Rightarrow>
          if v \<noteq> [] then (Inr False, s, [ConsoleWarn ''Honeypot triggered''])
          else (Inr True, s, []))"

definition checkRateLimit :: "manager \<Rightarrow> bool" where
  "checkRateLimit s = (rateLimitCount s < maxDownloadsPerWindow)"

definition validateDownloadEnvironment :: "world \<Rightarrow> bool \<times> effect list" where
  "validateDownloadEnvironment w =
     (let checks = [(''fetch'', has_fetch w), (''promise'', has_Promise w),
                    (''crypto'', has_crypto w), (''localStorage'', has_localStorage w)];
          failed = filter (\<lambda>(key, v). \<not> v) checks
      in if length failed > 0
         then (False, [ConsoleWarn ''Download environment checks failed:''])
         else (True, []))"

subsection \<open>DownloadManager: the token\<close>

text \<open>
  \<^verbatim>\<open>generateNonce\<close>: sixteen random bytes, each as two hexadecimal digits. Without
  \<^verbatim>\<open>crypto\<close> the call throws.
\<close>

definition generateNonce :: "world \<Rightarrow> exn + string" where
  "generateNonce w =
     (if \<not> has_crypto w then Inl (JsError ''crypto is not defined'')
      else Inr (concat (map (\<lambda>i. padStart 2 CHR ''0'' (toString_radix 16 (unat (random_bytes w i))))
                          [0..<16])))"

text \<open>\<^verbatim>\<open>JSON.stringify(tokenData)\<close>, the keys in the order the object literal gives them.\<close>

definition tokenString :: "world \<Rightarrow> manager \<Rightarrow> string \<Rightarrow> string" where
  "tokenString w s nonce =
     ''{'' @ JSON_string ''venture'' @ '':'' @ JSON_string (venture s) @
     '','' @ JSON_string ''timestamp'' @ '':'' @ Number_toString (now w) @
     '','' @ JSON_string ''userAgent'' @ '':'' @ JSON_string (userAgent w) @
     '','' @ JSON_string ''sessionId'' @ '':'' @ JSON_string (sessionId s) @
     '','' @ JSON_string ''nonce'' @ '':'' @ JSON_string nonce @ ''}''"

definition generateDownloadToken :: "world \<Rightarrow> manager \<Rightarrow> exn + string" where
  "generateDownloadToken w s =
     (case generateNonce w of
        Inl e \<Rightarrow> Inl e
      | Inr nonce \<Rightarrow>
          let token = filter (\<lambda>c. c \<notin> set ''+/='') (btoa (tokenString w s nonce))
          in Inr (take 32 token))"

text \<open>
  The printable ASCII characters that \<^verbatim>\<open>JSON.stringify\<close> copies and whose base64 form has
  no \<^verbatim>\<open>+\<close> or \<^verbatim>\<open>/\<close>: all but the quotation mark, the backslash, \<^verbatim>\<open>>\<close>, \<^verbatim>\<open>?\<close>, \<^verbatim>\<open>~\<close> and
  DEL. The first 24 characters of the serialised record when the venture name has twelve
  characters or more.
\<close>

definition plain :: "char \<Rightarrow> bool" where
  "plain c =
     (let n = (of_char c :: nat) in
      32 \<le> n \<and> n < 128 \<and> n mod 64 < 62 \<and> n \<noteq> 0x22 \<and> n \<noteq> 0x5C)"

definition token_head :: "string \<Rightarrow> string" where
  "token_head v = ''{'' @ JSON_string ''venture'' @ '':'' @ char_of (0x22 :: nat) # take 12 v"

subsection \<open>DownloadManager: one attempt\<close>

definition updateDownloadUI :: "ui_state \<Rightarrow> manager \<Rightarrow> unit run" where
  "updateDownloadUI state s = effects [UpdateDownloadUI state] s"

definition showSecurityBlockMessage :: "manager \<Rightarrow> unit run" where
  "showSecurityBlockMessage s =
     effects [ShowMessage ''Download Temporarily Unavailable''
       ''Our security systems have detected unusual activity. Please try again later or contact support if this persists.''
       ''warning''] s"

definition showRateLimitMessage :: "manager \<Rightarrow> unit run" where
  "showRateLimitMessage s =
     effects [ShowMessage ''Download Limit Reached''
       ''You have reached the maximum number of downloads for this session. Please wait a minute before trying again.''
       ''info''] s"

definition buildSecureDownloadUrl :: "world \<Rightarrow> string \<Rightarrow> manager \<Rightarrow> secure_url" where
  "buildSecureDownloadUrl w token s =
     \<lparr>url_base = downloadUrl s, url_token = token, url_venture = venture s,
      url_version = version s, url_t = now w\<rparr>"

text \<open>\<^verbatim>\<open>await fetch(url, {method: 'HEAD'})\<close> and the check of \<^verbatim>\<open>response.ok\<close>.\<close>

definition fetch_head :: "world \<Rightarrow> secure_url \<Rightarrow> manager \<Rightarrow> unit run" where
  "fetch_head w url s =
     (if \<not> has_fetch w then (Inl (JsError ''fetch is not defined''), s, [])
      else case head_response w of
        Rejected \<Rightarrow> (Inl (JsError ''Failed to fetch''), s, [FetchHead url])
      | Status st \<Rightarrow>
          if \<not> response_ok st
          then (Inl (JsError (''Download verification failed: '' @ Number_toString (int st))), s,
                [FetchHead url])
          else (Inr (), s, [FetchHead url]))"

definition verifyDownloadStart :: "world \<Rightarrow> secure_url \<Rightarrow> manager \<Rightarrow> unit run" where
  "verifyDownloadStart w url s =
     tryCatch
       (andThen (fetch_head w url s) (\<lambda>_ s.
        unawaited (trackEngagement w ''download_verified'' ''success'' s)))
       (\<lambda>error s.
        andThen (effects [ConsoleError ''Download verification failed:''] s) (\<lambda>_ s.
        andThen (trackError w error ''download_verification'' s) (\<lambda>_ s.
        throw error s)))"

definition startSecureDownload :: "world \<Rightarrow> secure_url \<Rightarrow> manager \<Rightarrow> unit run" where
  "startSecureDownload w url s =
     andThen (effects [LinkClick url] s) (\<lambda>_ s. verifyDownloadStart w url s)"

text \<open>
  \<^verbatim>\<open>updateRateLimit\<close>: the counter of the manager goes up, then the counter and the current
  time are stored.
\<close>

definition updateRateLimit :: "world \<Rightarrow> manager \<Rightarrow> unit run" where
  "updateRateLimit w s =
     (let s1 = s\<lparr>rateLimitCount := rateLimitCount s + 1\<rparr> in
      if \<not> has_localStorage w then throw (JsError ''localStorage is not defined'') s1
      else (Inr (),
            s1\<lparr>download_rate_limit :=
                 Some \<lparr>count = rateLimitCount s1, windowStart = now w\<rparr>\<rparr>,
            []))"

definition initiateDownload :: "world \<Rightarrow> string \<Rightarrow> manager \<Rightarrow> bool run" where
  "initiateDownload w source s =
     tryCatch
       (andThen (passesSecurityChecks w s) (\<lambda>passes s.
        if \<not> passes
        then andThen (showSecurityBlockMessage s) (\<lambda>_ s. (Inr False, s, []))
        else if \<not> checkRateLimit s
        then andThen (showRateLimitMessage s) (\<lambda>_ s. (Inr False, s, []))
        else
        andThen (updateDownloadUI Preparing s) (\<lambda>_ s.
        andThen (generateDownloadToken w s, s, []) (\<lambda>downloadToken s.
        andThen (trackDownload w (downloadUrl s) source s) (\<lambda>_ s.
        andThen (startSecureDownload w (buildSecureDownloadUrl w downloadToken s) s) (\<lambda>_ s.
        andThen (updateRateLimit w s) (\<lambda>_ s.
        andThen (updateDownloadUI Success s) (\<lambda>_ s.
        (Inr True, s, [])))))))))
       (\<lambda>error s.
        andThen (effects [ConsoleError ''Download failed:''] s) (\<lambda>_ s.
        andThen (trackError w error ''download_manager'' s) (\<lambda>_ s.
        andThen (updateDownloadUI Error s) (\<lambda>_ s.
        (Inr False, s, [])))))"

text \<open>\<^verbatim>\<open>reportSecurityEvent\<close>; nothing in the source calls it.\<close>

definition reportSecurityEvent :: "world \<Rightarrow> string \<Rightarrow> string \<Rightarrow> manager \<Rightarrow> unit run" where
  "reportSecurityEvent w ev details s =
     unawaited (sendAnalytics w
       \<lparr>event = ''security_event'', t_venture = venture s, t_sessionId = sessionId s,
        timestamp = now w,
        payload = [(''securityEvent'', ev), (''details'', details),
                   (''botScore'', Number_toString (int (botScore s))),
                   (''userAgent'', userAgent w)]\<rparr> s)"

text \<open>
  A visit without overlap: clicks one after the other on the same page, each with the
  browser as it is at that click, and each attempt run to its end before the next click.
  The results are in the order of the clicks.
\<close>

fun clicks :: "world list \<Rightarrow> string \<Rightarrow> manager \<Rightarrow> (exn + bool) list \<times> manager \<times> effect list" where
  "clicks [] source s = ([], s, [])"
| "clicks (w # ws) source s =
     (case initiateDownload w source s of (r, s', out) \<Rightarrow>
        (case clicks ws source s' of (rs, s'', out') \<Rightarrow> (r # rs, s'', out @ out')))"

subsection \<open>DownloadManager: attempts that overlap\<close>

text \<open>
  \<^verbatim>\<open>initiateDownload\<close> is \<^verbatim>\<open>async\<close> and the click handlers drop its promise, so a click can
  be handled while an earlier attempt waits for the network. \<^verbatim>\<open>updateDownloadUI\<close> disables
  the buttons \<^verbatim>\<open>#primary-download\<close> and \<^verbatim>\<open>#download-btn\<close> only; the links bound by
  \<^verbatim>\<open>[data-download]\<close> stay enabled during an attempt.

  The attempt is cut at its last \<^verbatim>\<open>await\<close>, the HEAD request of \<^verbatim>\<open>verifyDownloadStart\<close>:
  \<open>beginDownload\<close> is the code up to the moment the request has been sent, and
  \<open>finishDownload\<close> is the code from the moment the request settles, in the browser as it
  is then. The two \<^verbatim>\<open>catch\<close> blocks are named, since each guards both halves.
\<close>

datatype progress = Returned bool | AwaitingHead secure_url

definition head_request :: "world \<Rightarrow> secure_url \<Rightarrow> manager \<Rightarrow> unit run" where
  "head_request w url s =
     (if \<not> has_fetch w then (Inl (JsError ''fetch is not defined''), s, [])
      else (Inr (), s, [FetchHead url]))"

definition head_settles :: "world \<Rightarrow> manager \<Rightarrow> unit run" where
  "head_settles w s =
     (case head_response w of
        Rejected \<Rightarrow> (Inl (JsError ''Failed to fetch''), s, [])
      | Status st \<Rightarrow>
          if \<not> response_ok st
          then (Inl (JsError (''Download verification failed: '' @ Number_toString (int st))), s,
                [])
          else (Inr (), s, []))"

text \<open>The \<^verbatim>\<open>catch\<close> block of \<^verbatim>\<open>verifyDownloadStart\<close>, which throws the error again.\<close>

definition verification_failed :: "world \<Rightarrow> exn \<Rightarrow> manager \<Rightarrow> unit run" where
  "verification_failed w error s =
     andThen (effects [ConsoleError ''Download verification failed:''] s) (\<lambda>_ s.
     andThen (trackError w error ''download_verification'' s) (\<lambda>_ s.
     throw error s))"

text \<open>The \<^verbatim>\<open>catch\<close> block of \<^verbatim>\<open>initiateDownload\<close>, up to its \<^verbatim>\<open>return false\<close>.\<close>

definition download_failed :: "world \<Rightarrow> exn \<Rightarrow> manager \<Rightarrow> unit run" where
  "download_failed w error s =
     andThen (effects [ConsoleError ''Download failed:''] s) (\<lambda>_ s.
     andThen (trackError w error ''download_manager'' s) (\<lambda>_ s.
     updateDownloadUI Error s))"

definition beginDownload :: "world \<Rightarrow> string \<Rightarrow> manager \<Rightarrow> progress run" where
  "beginDownload w source s =
     tryCatch
       (andThen (passesSecurityChecks w s) (\<lambda>passes s.
        if \<not> passes
        then andThen (showSecurityBlockMessage s) (\<lambda>_ s. (Inr (Returned False), s, []))
        else if \<not> checkRateLimit s
        then andThen (showRateLimitMessage s) (\<lambda>_ s. (Inr (Returned False), s, []))
        else
        andThen (updateDownloadUI Preparing s) (\<lambda>_ s.
        andThen (generateDownloadToken w s, s, []) (\<lambda>downloadToken s.
        andThen (trackDownload w (downloadUrl s) source s) (\<lambda>_ s.
        andThen (effects [LinkClick (buildSecureDownloadUrl w downloadToken s)] s) (\<lambda>_ s.
        andThen (tryCatch (head_request w (buildSecureDownloadUrl w downloadToken s) s)
                   (verification_failed w)) (\<lambda>_ s.
        (Inr (AwaitingHead (buildSecureDownloadUrl w downloadToken s)), s, []))))))))
       (\<lambda>error s. andThen (download_failed w error s) (\<lambda>_ s. (Inr (Returned False), s, [])))"

definition finishDownload :: "world \<Rightarrow> manager \<Rightarrow> bool run" where
  "finishDownload w s =
     tryCatch
       (andThen
          (tryCatch
             (andThen (head_settles w s) (\<lambda>_ s.
              unawaited (trackEngagement w ''download_verified'' ''success'' s)))
             (verification_failed w)) (\<lambda>_ s.
        andThen (updateRateLimit w s) (\<lambda>_ s.
        andThen (updateDownloadUI Success s) (\<lambda>_ s.
        (Inr True, s, [])))))
       (\<lambda>error s. andThen (download_failed w error s) (\<lambda>_ s. (Inr False, s, [])))"

text \<open>
  The two halves one after the other: the attempt begins in the browser \<open>w\<close> and its
  request settles in the browser \<open>w'\<close>.
\<close>

definition resumed :: "world \<Rightarrow> progress run \<Rightarrow> bool run" where
  "resumed w' r =
     (case r of
        (Inl e, s, out) \<Rightarrow> (Inl e, s, out)
      | (Inr (Returned b), s, out) \<Rightarrow> (Inr b, s, out)
      | (Inr (AwaitingHead url), s, out) \<Rightarrow>
          (case finishDownload w' s of (r', s', out') \<Rightarrow> (r', s', out @ out')))"

text \<open>
  Clicks that overlap: every attempt of \<open>ws\<close> begins, in the order of the clicks, before
  the request of any of them has settled; then the requests settle in the same order, in
  the browsers \<open>ws'\<close>.
\<close>

fun begin_all ::
  "world list \<Rightarrow> string \<Rightarrow> manager \<Rightarrow> (exn + progress) list \<times> manager \<times> effect list" where
  "begin_all [] source s = ([], s, [])"
| "begin_all (w # ws) source s =
     (case beginDownload w source s of (p, s', out) \<Rightarrow>
        (case begin_all ws source s' of (ps, s'', out') \<Rightarrow> (p # ps, s'', out @ out')))"

fun finish_all ::
  "(world \<times> (exn + progress)) list \<Rightarrow> manager \<Rightarrow> (exn + bool) list \<times> manager \<times> effect list" where
  "finish_all [] s = ([], s, [])"
| "finish_all ((w', p) # rest) s =
     (case resumed w' (p, s, []) of (r, s', out) \<Rightarrow>
        (case finish_all rest s' of (rs, s'', out') \<Rightarrow> (r # rs, s'', out @ out')))"

definition overlapped ::
  "world list \<Rightarrow> world list \<Rightarrow> string \<Rightarrow> manager \<Rightarrow> (exn + bool) list \<times> manager \<times> effect list" where
  "overlapped ws ws' source s =
     (case begin_all ws source s of (ps, s', out) \<Rightarrow>
        (case finish_all (zip ws' ps) s' of (rs, s'', out') \<Rightarrow> (rs, s'', out @ out')))"

subsection \<open>Reading a run\<close>

definition outcome :: "'a run \<Rightarrow> exn + 'a" where
  "outcome r = fst r"

definition after :: "'r \<times> manager \<times> effect list \<Rightarrow> manager" where
  "after r = fst (snd r)"

definition emitted :: "'r \<times> manager \<times> effect list \<Rightarrow> effect list" where
  "emitted r = snd (snd r)"

text \<open>The calls of a telemetry sink among the effects, and the advisories shown to the user.\<close>

fun is_sink_call :: "effect \<Rightarrow> bool" where
  "is_sink_call (CloudflareTrack d) = True"
| "is_sink_call (GtagEvent d) = True"
| "is_sink_call (FetchPost path d) = True"
| "is_sink_call (Beacon path d) = True"
| "is_sink_call e = False"

fun is_advisory :: "effect \<Rightarrow> bool" where
  "is_advisory (ShowMessage title text kind) = True"
| "is_advisory e = False"

fun is_ui_update :: "effect \<Rightarrow> bool" where
  "is_ui_update (UpdateDownloadUI state) = True"
| "is_ui_update e = False"

fun is_download_start :: "effect \<Rightarrow> bool" where
  "is_download_start (LinkClick url) = True"
| "is_download_start e = False"

text \<open>
  The conditions of \<^verbatim>\<open>passesSecurityChecks\<close> that the browser decides, and the conditions
  under which nothing between the gates and \<^verbatim>\<open>updateDownloadUI('success')\<close> throws: the
  nonce can be drawn, the conversion record and the window can be stored, and the HEAD
  probe answers with an ok status.
\<close>

definition environment_supported :: "world \<Rightarrow> bool" where
  "environment_supported w = (has_fetch w \<and> has_Promise w)"

definition honeypot_clear :: "world \<Rightarrow> bool" where
  "honeypot_clear w = (case honeypot w of None \<Rightarrow> True | Some v \<Rightarrow> v = [])"

definition head_ok :: "world \<Rightarrow> bool" where
  "head_ok w = (case head_response w of Rejected \<Rightarrow> False | Status st \<Rightarrow> response_ok st)"

definition download_succeeds :: "world \<Rightarrow> bool" where
  "download_succeeds w = (has_crypto w \<and> has_localStorage w \<and> head_ok w)"

text \<open>
  A browser in which an admitted attempt goes through: the only gate left to decide is the
  rate limiter.
\<close>

definition healthy :: "world \<Rightarrow> bool" where
  "healthy w = (environment_supported w \<and> honeypot_clear w \<and> download_succeeds w)"

definition rate_limit_advisory :: effect where
  "rate_limit_advisory =
     ShowMessage ''Download Limit Reached''
       ''You have reached the maximum number of downloads for this session. Please wait a minute before trying again.''
       ''info''"

text \<open>An attempt is admitted when it passes \<^verbatim>\<open>passesSecurityChecks\<close> and \<^verbatim>\<open>checkRateLimit\<close>.\<close>

definition passes :: "world \<Rightarrow> manager \<Rightarrow> bool" where
  "passes w s = (outcome (passesSecurityChecks w s) = Inr True)"

definition admitted :: "world \<Rightarrow> manager \<Rightarrow> bool" where
  "admitted w s = (passes w s \<and> checkRateLimit s)"

text \<open>The manager once \<^verbatim>\<open>updateConversionMetrics\<close> has stored the conversion of this attempt.\<close>

definition recorded :: "world \<Rightarrow> manager \<Rightarrow> manager" where
  "recorded w s =
     s\<lparr>venture_conversions := venture_conversions s @
         [\<lparr>c_venture = a_venture s, c_timestamp = now w,
           c_sessionId = sessionId s, c_referrer = getReferrer w\<rparr>]\<rparr>"

subsection \<open>A page and a browser to run the code on\<close>

text \<open>
  A manager as the constructor leaves it on the page of the venture Alpha Workspace, with
  nothing in storage, and a desktop browser with every capability but
  \<^verbatim>\<open>requestAnimationFrame\<close>, an empty honeypot field, a Google Analytics hook, and a
  network that answers.
\<close>

definition alpha :: manager where
  "alpha =
     \<lparr>venture = ''Alpha Workspace'', version = ''1.0.0'',
      downloadUrl = ''/download/alpha-setup.exe'',
      a_venture = ''Alpha Workspace'', a_version = ''1.0.0'',
      sessionId = ''session_1000_k3j9x2m1q'', startTime = 0,
      botScore = 0, rateLimitCount = 0,
      download_rate_limit = None, venture_conversions = []\<rparr>"

definition desktop :: world where
  "desktop =
     \<lparr>now = 0, webdriver = False, phantom = False, callPhantom = False,
      userAgent = ''Mozilla/5.0 (Windows NT 10.0; Win64; x64)'', referrer = [],
      has_requestAnimationFrame = False, has_localStorage = True,
      has_canvas_getContext = True, has_fetch = True, has_Promise = True,
      has_crypto = True, honeypot = Some [], random_bytes = (\<lambda>i. 0x3A),
      cloudflare = Missing, gtag = Works, sendBeacon = Works,
      analytics_response = Status 204, head_response = Status 200\<rparr>"

text \<open>
  The same browser driven by an automation tool that sets \<^verbatim>\<open>navigator.webdriver\<close> and
  \<^verbatim>\<open>window.phantom\<close>, and a headless browser that also announces itself.
\<close>

definition automated :: world where
  "automated = desktop\<lparr>webdriver := True, phantom := True, has_requestAnimationFrame := True\<rparr>"

definition headless :: world where
  "headless =
     desktop\<lparr>webdriver := True, callPhantom := True, cloudflare := Works,
       userAgent := ''Mozilla/5.0 (X11; Linux x86_64) HeadlessChrome/120.0''\<rparr>"

text \<open>The page once \<^verbatim>\<open>setupSecurityChecks\<close> has run in a browser.\<close>

definition loaded :: "world \<Rightarrow> manager" where
  "loaded w = after (setupSecurityChecks w alpha)"

text \<open>The page view event of that page, and the browser at a later time.\<close>

definition page_view :: telemetry where
  "page_view =
     \<lparr>event = ''page_view'', t_venture = ''Alpha Workspace'',
      t_sessionId = ''session_1000_k3j9x2m1q'', timestamp = 0,
      payload = [(''page'', ''/''), (''referrer'', ''direct'')]\<rparr>"

definition at_time :: "int \<Rightarrow> world" where
  "at_time t = desktop\<lparr>now := t\<rparr>"

section \<open>Properties\<close>

subsection \<open>Base64 and JSON on plain characters\<close>

lemma base64_char_kept_upto: "\<forall>n \<in> set [0..<62]. base64_char n \<notin> set ''+/=''"
  by code_simp

lemma base64_char_kept: "n < 62 \<Longrightarrow> base64_char n \<notin> set ''+/=''"
  using base64_char_kept_upto by simp

lemma sextets:
  fixes x y z :: nat
  assumes "x < 128" "y < 128" "z < 128" "z mod 64 < 62"
  shows "(x mod 4) * 16 + y div 16 < 62" "(y mod 16) * 4 + z div 64 < 62" "x div 4 < 62"
proof -
  have "x mod 4 < 4" "y mod 16 < 16"
    by simp_all
  moreover from assms have "y div 16 < 8" "z div 64 < 2"
    by simp_all
  ultimately show "(x mod 4) * 16 + y div 16 < 62" "(y mod 16) * 4 + z div 64 < 62"
    by linarith+
  from assms show "x div 4 < 62"
    by simp
qed

lemma btoa_plain:
  assumes "\<forall>c \<in> set xs. of_char c < (128::nat) \<and> (of_char c :: nat) mod 64 < 62"
    and "length xs mod 3 = 0"
  shows "filter (\<lambda>c. c \<notin> set ''+/='') (btoa (xs @ ys)) =
           btoa xs @ filter (\<lambda>c. c \<notin> set ''+/='') (btoa ys) \<and>
         length (btoa xs) = 4 * (length xs div 3)"
  using assms
proof (induction xs rule: btoa.induct)
  case 1
  show ?case by simp
next
  case (2 a)
  then show ?case by simp
next
  case (3 a b)
  then show ?case by simp
next
  case (4 a b c rest)
  from "4.prems" have r: "\<forall>c \<in> set rest. of_char c < (128::nat) \<and> (of_char c :: nat) mod 64 < 62"
    and l: "length rest mod 3 = 0"
    by simp_all
  from "4.prems" have b: "(of_char a :: nat) < 128" "(of_char b :: nat) < 128"
    "(of_char c :: nat) < 128" "(of_char c :: nat) mod 64 < 62"
    by simp_all
  note k = sextets [OF b, THEN base64_char_kept] base64_char_kept [OF b(4)]
  have d: "(3 + length rest) div 3 = Suc (length rest div 3)"
    by simp
  from "4.IH" [OF refl refl refl r l] k show ?case
    by (simp add: Let_def d)
qed

lemma json_escape_plain: "plain c \<Longrightarrow> json_escape c = [c]"
  by (auto simp: plain_def json_escape_def Let_def)

lemma concat_json_escape_plain:
  "\<forall>c \<in> set xs. plain c \<Longrightarrow> concat (map json_escape xs) = xs"
  by (induction xs) (simp_all add: json_escape_plain)

lemma JSON_string_plain_prefix:
  assumes "\<forall>c \<in> set (take n v). plain c"
  shows "JSON_string v =
           char_of (0x22 :: nat) # take n v @ concat (map json_escape (drop n v)) @
           [char_of (0x22 :: nat)]"
proof -
  have "concat (map json_escape v) =
          concat (map json_escape (take n v)) @ concat (map json_escape (drop n v))"
    by (metis append_take_drop_id concat_append map_append)
  with assms show ?thesis
    by (simp add: JSON_string_def concat_json_escape_plain)
qed

subsection \<open>Sequencing\<close>

lemma andThen_fst:
  "fst (andThen r f) = (case fst r of Inl e \<Rightarrow> Inl e | Inr a \<Rightarrow> fst (f a (fst (snd r))))"
  by (cases r; cases "fst r") (auto simp: andThen_def case_prod_beta)

lemma andThen_after:
  "fst (snd (andThen r f)) =
     (case fst r of Inl e \<Rightarrow> fst (snd r) | Inr a \<Rightarrow> fst (snd (f a (fst (snd r)))))"
  by (cases r; cases "fst r") (auto simp: andThen_def case_prod_beta)

lemma andThen_emitted:
  "snd (snd (andThen r f)) =
     (case fst r of Inl e \<Rightarrow> snd (snd r)
      | Inr a \<Rightarrow> snd (snd r) @ snd (snd (f a (fst (snd r)))))"
  by (cases r; cases "fst r") (auto simp: andThen_def case_prod_beta)

lemma tryCatch_fst:
  "fst (tryCatch r h) = (case fst r of Inl e \<Rightarrow> fst (h e (fst (snd r))) | Inr a \<Rightarrow> Inr a)"
  by (cases r; cases "fst r") (auto simp: tryCatch_def case_prod_beta)

lemma tryCatch_after:
  "fst (snd (tryCatch r h)) =
     (case fst r of Inl e \<Rightarrow> fst (snd (h e (fst (snd r)))) | Inr a \<Rightarrow> fst (snd r))"
  by (cases r; cases "fst r") (auto simp: tryCatch_def case_prod_beta)

lemma tryCatch_emitted:
  "snd (snd (tryCatch r h)) =
     (case fst r of Inl e \<Rightarrow> snd (snd r) @ snd (snd (h e (fst (snd r))))
      | Inr a \<Rightarrow> snd (snd r))"
  by (cases r; cases "fst r") (auto simp: tryCatch_def case_prod_beta)

lemmas seq_simps =
  andThen_fst andThen_after andThen_emitted tryCatch_fst tryCatch_after tryCatch_emitted

lemma unawaited_proj [simp]:
  "fst (unawaited r) = Inr ()"
  "fst (snd (unawaited r)) = fst (snd r)"
  "snd (snd (unawaited r)) = snd (snd r)"
  by (simp_all add: unawaited_def case_prod_beta)

lemma run_eqI:
  "fst r = a \<Longrightarrow> fst (snd r) = s \<Longrightarrow> snd (snd r) = out \<Longrightarrow> r = (a, s, out)"
  by (cases r) auto

subsection \<open>The sinks\<close>

lemma sendToCloudflare_after [simp]: "fst (snd (sendToCloudflare w d s)) = s"
  by (cases "cloudflare w") (simp_all add: sendToCloudflare_def)

lemma sendToGoogleAnalytics_after [simp]: "fst (snd (sendToGoogleAnalytics w d s)) = s"
  by (cases "gtag w") (simp_all add: sendToGoogleAnalytics_def)

lemma fetch_post_after [simp]: "fst (snd (fetch_post w p d s)) = s"
  by (cases "analytics_response w") (simp_all add: fetch_post_def)

lemma navigator_sendBeacon_after [simp]: "fst (snd (navigator_sendBeacon w p d s)) = s"
  by (cases "sendBeacon w") (simp_all add: navigator_sendBeacon_def)

lemma sendToCustomEndpoint_after [simp]: "fst (snd (sendToCustomEndpoint w d s)) = s"
  by (cases "fst (fetch_post w ''/api/analytics'' d s)")
     (simp_all add: sendToCustomEndpoint_def seq_simps)

lemma sendToCloudflare_set:
  "set (snd (snd (sendToCloudflare w d s))) \<subseteq> {CloudflareTrack d}"
  by (cases "cloudflare w") (simp_all add: sendToCloudflare_def)

lemma sendToGoogleAnalytics_set:
  "set (snd (snd (sendToGoogleAnalytics w d s))) \<subseteq> {GtagEvent d}"
  by (cases "gtag w") (simp_all add: sendToGoogleAnalytics_def)

lemma fetch_post_set: "set (snd (snd (fetch_post w p d s))) \<subseteq> {FetchPost p d}"
  by (cases "analytics_response w") (simp_all add: fetch_post_def)

lemma navigator_sendBeacon_set:
  "set (snd (snd (navigator_sendBeacon w p d s))) \<subseteq> {Beacon p d}"
  by (cases "sendBeacon w") (simp_all add: navigator_sendBeacon_def)

lemma sendToCustomEndpoint_set:
  "set (snd (snd (sendToCustomEndpoint w d s))) \<subseteq>
     {FetchPost ''/api/analytics'' d, Beacon ''/api/analytics'' d}"
  using fetch_post_set[of w "''/api/analytics''" d s]
    navigator_sendBeacon_set[of w "''/api/analytics''" d s]
  by (cases "fst (fetch_post w ''/api/analytics'' d s)")
     (auto simp: sendToCustomEndpoint_def seq_simps)

subsection \<open>The dispatcher\<close>

lemma sendAnalytics_fst [simp]: "fst (sendAnalytics w d s) = Inr ()"
  by (simp add: sendAnalytics_def tryCatch_fst effects_def split: sum.splits)

lemma sendAnalytics_after [simp]: "fst (snd (sendAnalytics w d s)) = s"
  by (simp add: sendAnalytics_def seq_simps effects_def split: sum.splits)

lemma sendAnalytics_set:
  "set (snd (snd (sendAnalytics w d s))) \<subseteq>
     {CloudflareTrack d, GtagEvent d, FetchPost ''/api/analytics'' d,
      Beacon ''/api/analytics'' d, ConsoleWarn ''Analytics tracking failed:''}"
  using sendToCloudflare_set[of w d s] sendToGoogleAnalytics_set[of w d s]
    sendToCustomEndpoint_set[of w d s]
  by (auto simp: sendAnalytics_def seq_simps effects_def split: sum.splits)

lemma sendAnalytics_filter [simp]:
  "filter is_ui_update (snd (snd (sendAnalytics w d s))) = []"
  "filter is_advisory (snd (snd (sendAnalytics w d s))) = []"
  "filter is_download_start (snd (snd (sendAnalytics w d s))) = []"
  using sendAnalytics_set[of w d s] by (auto simp: filter_empty_conv)

lemma trackError_proj [simp]:
  "fst (trackError w e c s) = Inr ()"
  "fst (snd (trackError w e c s)) = s"
  "filter is_ui_update (snd (snd (trackError w e c s))) = []"
  "filter is_advisory (snd (snd (trackError w e c s))) = []"
  "filter is_download_start (snd (snd (trackError w e c s))) = []"
  by (simp_all add: trackError_def)

lemma trackEngagement_proj [simp]:
  "fst (trackEngagement w a e s) = Inr ()"
  "fst (snd (trackEngagement w a e s)) = s"
  "filter is_ui_update (snd (snd (trackEngagement w a e s))) = []"
  "filter is_advisory (snd (snd (trackEngagement w a e s))) = []"
  "filter is_download_start (snd (snd (trackEngagement w a e s))) = []"
  by (simp_all add: trackEngagement_def)

lemma sendToCloudflare_fst:
  "fst (sendToCloudflare w d s) =
     (if cloudflare w = Raises then Inl (JsError ''cloudflare.analytics.track'') else Inr ())"
  by (cases "cloudflare w") (simp_all add: sendToCloudflare_def)

lemma sendToGoogleAnalytics_fst:
  "fst (sendToGoogleAnalytics w d s) =
     (if gtag w = Raises then Inl (JsError ''gtag'') else Inr ())"
  by (cases "gtag w") (simp_all add: sendToGoogleAnalytics_def)

lemma sendToCloudflare_raises:
  "cloudflare w = Raises \<Longrightarrow> snd (snd (sendToCloudflare w d s)) = [CloudflareTrack d]"
  by (simp add: sendToCloudflare_def)

lemma sendToGoogleAnalytics_raises:
  "gtag w = Raises \<Longrightarrow> snd (snd (sendToGoogleAnalytics w d s)) = [GtagEvent d]"
  by (simp add: sendToGoogleAnalytics_def)

lemma sendToGoogleAnalytics_missing:
  "gtag w = Missing \<Longrightarrow> snd (snd (sendToGoogleAnalytics w d s)) = []"
  by (simp add: sendToGoogleAnalytics_def)

lemmas sink_defs =
  sendAnalytics_def sendToCloudflare_def sendToGoogleAnalytics_def sendToCustomEndpoint_def
  fetch_post_def navigator_sendBeacon_def andThen_def tryCatch_def effects_def

lemma custom_endpoint_emitted:
  "snd (snd (sendToCustomEndpoint w data s)) =
     (if has_fetch w
      then FetchPost ''/api/analytics'' data #
           (if analytics_response w = Rejected \<and> sendBeacon w \<noteq> Missing
            then [Beacon ''/api/analytics'' data] else [])
      else (if sendBeacon w \<noteq> Missing then [Beacon ''/api/analytics'' data] else []))"
  by (cases "analytics_response w"; cases "sendBeacon w")
     (simp_all add: sendToCustomEndpoint_def fetch_post_def navigator_sendBeacon_def
      tryCatch_def)

subsection \<open>The steps of an attempt\<close>

lemma passes_iff:
  "passes w s = (botScore s \<le> 50 \<and> environment_supported w \<and> honeypot_clear w)"
  by (auto simp: passes_def outcome_def passesSecurityChecks_def environment_supported_def
      honeypot_clear_def split: option.splits)

lemma passes_fst: "fst (passesSecurityChecks w s) = Inr (passes w s)"
  by (auto simp: passes_def outcome_def passesSecurityChecks_def split: option.splits)

lemma passes_after [simp]: "fst (snd (passesSecurityChecks w s)) = s"
  by (auto simp: passesSecurityChecks_def split: option.splits)

lemma passes_emitted:
  "snd (snd (passesSecurityChecks w s)) =
     (if botScore s > 50 then [ConsoleWarn ''High bot score detected:'']
      else if \<not> environment_supported w then [ConsoleWarn ''Unsupported browser environment'']
      else if \<not> honeypot_clear w then [ConsoleWarn ''Honeypot triggered'']
      else [])"
  by (auto simp: passesSecurityChecks_def environment_supported_def honeypot_clear_def
      split: option.splits)

lemma passes_quiet: "passes w s \<Longrightarrow> snd (snd (passesSecurityChecks w s)) = []"
  by (auto simp: passes_emitted passes_iff)

lemma admitted_fetch: "admitted w s \<Longrightarrow> has_fetch w"
  by (simp add: admitted_def passes_iff environment_supported_def)

lemma trackDownload_proj:
  "fst (trackDownload w url source s) =
     (if has_localStorage w then Inr () else Inl (JsError ''localStorage is not defined''))"
  "fst (snd (trackDownload w url source s)) =
     (if has_localStorage w
      then s\<lparr>venture_conversions := venture_conversions s @
               [\<lparr>c_venture = a_venture s, c_timestamp = now w,
                 c_sessionId = sessionId s, c_referrer = getReferrer w\<rparr>]\<rparr>
      else s)"
  "filter is_ui_update (snd (snd (trackDownload w url source s))) = []"
  "filter is_advisory (snd (snd (trackDownload w url source s))) = []"
  "filter is_download_start (snd (snd (trackDownload w url source s))) = []"
  by (simp_all add: trackDownload_def seq_simps updateConversionMetrics_def throw_def)

lemma fetch_head_fst:
  "has_fetch w \<Longrightarrow> head_ok w \<Longrightarrow> fst (fetch_head w url s) = Inr ()"
  "has_fetch w \<Longrightarrow> \<not> head_ok w \<Longrightarrow> \<exists>e. fst (fetch_head w url s) = Inl e"
  by (auto simp: fetch_head_def head_ok_def split: response.splits)

lemma fetch_head_after [simp]: "fst (snd (fetch_head w url s)) = s"
  by (auto simp: fetch_head_def split: response.splits)

lemma fetch_head_emitted: "has_fetch w \<Longrightarrow> snd (snd (fetch_head w url s)) = [FetchHead url]"
  by (auto simp: fetch_head_def split: response.splits)

lemma verify_after [simp]: "fst (snd (verifyDownloadStart w url s)) = s"
  by (cases "fst (fetch_head w url s)")
     (simp_all add: verifyDownloadStart_def seq_simps effects_def throw_def)

lemma verify_fst:
  "has_fetch w \<Longrightarrow> head_ok w \<Longrightarrow> fst (verifyDownloadStart w url s) = Inr ()"
  "has_fetch w \<Longrightarrow> \<not> head_ok w \<Longrightarrow> \<exists>e. fst (verifyDownloadStart w url s) = Inl e"
  using fetch_head_fst[of w url s]
  by (auto simp: verifyDownloadStart_def seq_simps effects_def throw_def)

lemma verify_filter [simp]:
  "filter is_ui_update (snd (snd (verifyDownloadStart w url s))) = []"
  "filter is_advisory (snd (snd (verifyDownloadStart w url s))) = []"
  "filter is_download_start (snd (snd (verifyDownloadStart w url s))) = []"
  by (cases "fst (fetch_head w url s)"; cases "head_response w";
      simp add: verifyDownloadStart_def seq_simps effects_def throw_def fetch_head_def)+

lemma start_after [simp]: "fst (snd (startSecureDownload w url s)) = s"
  by (simp add: startSecureDownload_def seq_simps effects_def)

lemma start_fst:
  "has_fetch w \<Longrightarrow> head_ok w \<Longrightarrow> fst (startSecureDownload w url s) = Inr ()"
  "has_fetch w \<Longrightarrow> \<not> head_ok w \<Longrightarrow> \<exists>e. fst (startSecureDownload w url s) = Inl e"
  using verify_fst[of w url s]
  by (auto simp: startSecureDownload_def seq_simps effects_def)

lemma start_filter [simp]:
  "filter is_ui_update (snd (snd (startSecureDownload w url s))) = []"
  "filter is_advisory (snd (snd (startSecureDownload w url s))) = []"
  "filter is_download_start (snd (snd (startSecureDownload w url s))) = [LinkClick url]"
  by (simp_all add: startSecureDownload_def seq_simps effects_def)

lemma token_cases:
  "has_crypto w \<Longrightarrow> \<exists>t. generateDownloadToken w s = Inr t"
  "\<not> has_crypto w \<Longrightarrow> generateDownloadToken w s = Inl (JsError ''crypto is not defined'')"
  by (simp_all add: generateDownloadToken_def generateNonce_def Let_def)

text \<open>The code after the gates, as one run.\<close>

lemma attempt_cases [case_names blocked limited no_crypto no_storage probe_failed ok]:
  assumes "\<not> passes w s \<Longrightarrow> P"
    and "passes w s \<Longrightarrow> \<not> checkRateLimit s \<Longrightarrow> P"
    and "admitted w s \<Longrightarrow> \<not> has_crypto w \<Longrightarrow> P"
    and "admitted w s \<Longrightarrow> has_crypto w \<Longrightarrow> \<not> has_localStorage w \<Longrightarrow> P"
    and "admitted w s \<Longrightarrow> has_crypto w \<Longrightarrow> has_localStorage w \<Longrightarrow> \<not> head_ok w \<Longrightarrow> P"
    and "admitted w s \<Longrightarrow> download_succeeds w \<Longrightarrow> P"
  shows P
  using assms unfolding admitted_def download_succeeds_def by blast

lemmas attempt_defs =
  initiateDownload_def seq_simps passes_fst effects_def throw_def
  showSecurityBlockMessage_def showRateLimitMessage_def updateDownloadUI_def
  trackDownload_proj updateRateLimit_def Let_def

lemma initiateDownload_blocked:
  assumes "\<not> passes w s"
  shows "initiateDownload w source s =
           (Inr False, s,
            snd (snd (passesSecurityChecks w s)) @ snd (snd (showSecurityBlockMessage s)))"
  using assms by (intro run_eqI; simp add: attempt_defs)

lemma initiateDownload_limited:
  assumes "passes w s" and "\<not> checkRateLimit s"
  shows "initiateDownload w source s = (Inr False, s, snd (snd (showRateLimitMessage s)))"
  using assms by (intro run_eqI; simp add: attempt_defs passes_quiet)

lemma initiateDownload_no_crypto:
  assumes "admitted w s" "\<not> has_crypto w"
  shows "fst (initiateDownload w source s) = Inr False"
    and "fst (snd (initiateDownload w source s)) = s"
    and "filter is_ui_update (snd (snd (initiateDownload w source s))) =
           [UpdateDownloadUI Preparing, UpdateDownloadUI Error]"
    and "filter is_advisory (snd (snd (initiateDownload w source s))) = []"
    and "filter is_download_start (snd (snd (initiateDownload w source s))) = []"
    and "ConsoleError ''Download failed:'' \<in> set (snd (snd (initiateDownload w source s)))"
  using assms
  by (simp_all add: attempt_defs admitted_def token_cases passes_quiet)

lemma initiateDownload_no_storage:
  assumes "admitted w s" "has_crypto w" "\<not> has_localStorage w"
  shows "fst (initiateDownload w source s) = Inr False"
    and "fst (snd (initiateDownload w source s)) = s"
    and "filter is_ui_update (snd (snd (initiateDownload w source s))) =
           [UpdateDownloadUI Preparing, UpdateDownloadUI Error]"
    and "filter is_advisory (snd (snd (initiateDownload w source s))) = []"
    and "filter is_download_start (snd (snd (initiateDownload w source s))) = []"
    and "ConsoleError ''Download failed:'' \<in> set (snd (snd (initiateDownload w source s)))"
proof -
  from assms obtain t where "generateDownloadToken w s = Inr t"
    using token_cases(1) by blast
  with assms show "fst (initiateDownload w source s) = Inr False"
    and "fst (snd (initiateDownload w source s)) = s"
    and "filter is_ui_update (snd (snd (initiateDownload w source s))) =
           [UpdateDownloadUI Preparing, UpdateDownloadUI Error]"
    and "filter is_advisory (snd (snd (initiateDownload w source s))) = []"
    and "filter is_download_start (snd (snd (initiateDownload w source s))) = []"
    and "ConsoleError ''Download failed:'' \<in> set (snd (snd (initiateDownload w source s)))"
    by (simp_all add: attempt_defs admitted_def passes_quiet)
qed

lemma initiateDownload_probe_failed:
  assumes "admitted w s" "has_crypto w" "has_localStorage w" "\<not> head_ok w"
  shows "fst (initiateDownload w source s) = Inr False"
    and "fst (snd (initiateDownload w source s)) = recorded w s"
    and "filter is_ui_update (snd (snd (initiateDownload w source s))) =
           [UpdateDownloadUI Preparing, UpdateDownloadUI Error]"
    and "filter is_advisory (snd (snd (initiateDownload w source s))) = []"
    and "filter is_download_start (snd (snd (initiateDownload w source s))) =
           [LinkClick (buildSecureDownloadUrl w (projr (generateDownloadToken w s))
              (recorded w s))]"
    and "ConsoleError ''Download failed:'' \<in> set (snd (snd (initiateDownload w source s)))"
proof -
  from assms obtain t where t: "generateDownloadToken w s = Inr t"
    using token_cases(1) by blast
  from assms have f: "has_fetch w"
    by (simp add: admitted_fetch)
  obtain e where "fst (startSecureDownload w (buildSecureDownloadUrl w t (recorded w s))
      (recorded w s)) = Inl e"
    using start_fst(2)[OF f] assms by blast
  with t assms show "fst (initiateDownload w source s) = Inr False"
    and "fst (snd (initiateDownload w source s)) = recorded w s"
    and "filter is_ui_update (snd (snd (initiateDownload w source s))) =
           [UpdateDownloadUI Preparing, UpdateDownloadUI Error]"
    and "filter is_advisory (snd (snd (initiateDownload w source s))) = []"
    and "filter is_download_start (snd (snd (initiateDownload w source s))) =
           [LinkClick (buildSecureDownloadUrl w (projr (generateDownloadToken w s))
              (recorded w s))]"
    and "ConsoleError ''Download failed:'' \<in> set (snd (snd (initiateDownload w source s)))"
    by (simp_all add: attempt_defs admitted_def passes_quiet recorded_def[symmetric])
qed

lemma initiateDownload_ok:
  assumes "admitted w s" "download_succeeds w"
  shows "fst (initiateDownload w source s) = Inr True"
    and "fst (snd (initiateDownload w source s)) =
           (recorded w s)\<lparr>rateLimitCount := rateLimitCount s + 1,
             download_rate_limit :=
               Some \<lparr>count = rateLimitCount s + 1, windowStart = now w\<rparr>\<rparr>"
    and "filter is_ui_update (snd (snd (initiateDownload w source s))) =
           [UpdateDownloadUI Preparing, UpdateDownloadUI Success]"
    and "filter is_advisory (snd (snd (initiateDownload w source s))) = []"
    and "filter is_download_start (snd (snd (initiateDownload w source s))) =
           [LinkClick (buildSecureDownloadUrl w (projr (generateDownloadToken w s))
              (recorded w s))]"
proof -
  from assms obtain t where t: "generateDownloadToken w s = Inr t"
    using token_cases(1) by (auto simp: download_succeeds_def)
  from assms have f: "has_fetch w" "head_ok w" "has_localStorage w"
    by (simp_all add: admitted_fetch download_succeeds_def)
  from t f assms show "fst (initiateDownload w source s) = Inr True"
    and "fst (snd (initiateDownload w source s)) =
           (recorded w s)\<lparr>rateLimitCount := rateLimitCount s + 1,
             download_rate_limit :=
               Some \<lparr>count = rateLimitCount s + 1, windowStart = now w\<rparr>\<rparr>"
    and "filter is_ui_update (snd (snd (initiateDownload w source s))) =
           [UpdateDownloadUI Preparing, UpdateDownloadUI Success]"
    and "filter is_advisory (snd (snd (initiateDownload w source s))) = []"
    and "filter is_download_start (snd (snd (initiateDownload w source s))) =
           [LinkClick (buildSecureDownloadUrl w (projr (generateDownloadToken w s))
              (recorded w s))]"
    by (simp_all add: attempt_defs admitted_def passes_quiet start_fst
        recorded_def[symmetric])
       (simp_all add: recorded_def)
qed

subsection \<open>An attempt as a whole\<close>

lemma initiateDownload_fst:
  "fst (initiateDownload w source s) = Inr (admitted w s \<and> download_succeeds w)"
proof (cases rule: attempt_cases[of w s])
  case blocked
  then show ?thesis by (simp add: initiateDownload_blocked admitted_def)
next
  case limited
  then show ?thesis by (simp add: initiateDownload_limited admitted_def)
next
  case no_crypto
  then show ?thesis by (simp add: initiateDownload_no_crypto download_succeeds_def)
next
  case no_storage
  then show ?thesis by (simp add: initiateDownload_no_storage download_succeeds_def)
next
  case probe_failed
  then show ?thesis by (simp add: initiateDownload_probe_failed download_succeeds_def)
next
  case ok
  then show ?thesis by (simp add: initiateDownload_ok)
qed

lemma initiateDownload_ui:
  "filter is_ui_update (snd (snd (initiateDownload w source s))) =
     (if admitted w s
      then [UpdateDownloadUI Preparing,
            UpdateDownloadUI (if download_succeeds w then Success else Error)]
      else [])"
proof (cases rule: attempt_cases[of w s])
  case blocked
  then show ?thesis
    by (simp add: initiateDownload_blocked admitted_def passes_emitted
        showSecurityBlockMessage_def effects_def)
next
  case limited
  then show ?thesis
    by (simp add: initiateDownload_limited admitted_def showRateLimitMessage_def effects_def)
next
  case no_crypto
  then show ?thesis by (simp add: initiateDownload_no_crypto download_succeeds_def)
next
  case no_storage
  then show ?thesis by (simp add: initiateDownload_no_storage download_succeeds_def)
next
  case probe_failed
  then show ?thesis by (simp add: initiateDownload_probe_failed download_succeeds_def)
next
  case ok
  then show ?thesis by (simp add: initiateDownload_ok)
qed

lemma initiateDownload_count:
  "rateLimitCount (fst (snd (initiateDownload w source s))) =
     (if admitted w s \<and> download_succeeds w then rateLimitCount s + 1 else rateLimitCount s)"
proof (cases rule: attempt_cases[of w s])
  case blocked
  then show ?thesis by (simp add: initiateDownload_blocked admitted_def)
next
  case limited
  then show ?thesis by (simp add: initiateDownload_limited admitted_def)
next
  case no_crypto
  then show ?thesis by (simp add: initiateDownload_no_crypto download_succeeds_def)
next
  case no_storage
  then show ?thesis by (simp add: initiateDownload_no_storage download_succeeds_def)
next
  case probe_failed
  then show ?thesis by (simp add: initiateDownload_probe_failed download_succeeds_def recorded_def)
next
  case ok
  then show ?thesis by (simp add: initiateDownload_ok recorded_def)
qed

lemma initiateDownload_botScore:
  "botScore (fst (snd (initiateDownload w source s))) = botScore s"
proof (cases rule: attempt_cases[of w s])
  case blocked
  then show ?thesis by (simp add: initiateDownload_blocked admitted_def)
next
  case limited
  then show ?thesis by (simp add: initiateDownload_limited admitted_def)
next
  case no_crypto
  then show ?thesis by (simp add: initiateDownload_no_crypto download_succeeds_def)
next
  case no_storage
  then show ?thesis by (simp add: initiateDownload_no_storage download_succeeds_def)
next
  case probe_failed
  then show ?thesis by (simp add: initiateDownload_probe_failed download_succeeds_def recorded_def)
next
  case ok
  then show ?thesis by (simp add: initiateDownload_ok recorded_def)
qed

lemma initiateDownload_after:
  "fst (snd (initiateDownload w source s)) =
     (if admitted w s \<and> has_crypto w \<and> has_localStorage w
      then (if head_ok w
            then (recorded w s)\<lparr>rateLimitCount := rateLimitCount s + 1,
                   download_rate_limit :=
                     Some \<lparr>count = rateLimitCount s + 1, windowStart = now w\<rparr>\<rparr>
            else recorded w s)
      else s)"
proof (cases rule: attempt_cases[of w s])
  case blocked
  then show ?thesis by (simp add: initiateDownload_blocked admitted_def)
next
  case limited
  then show ?thesis by (simp add: initiateDownload_limited admitted_def)
next
  case no_crypto
  then show ?thesis by (simp add: initiateDownload_no_crypto)
next
  case no_storage
  then show ?thesis by (simp add: initiateDownload_no_storage)
next
  case probe_failed
  then show ?thesis by (simp add: initiateDownload_probe_failed)
next
  case ok
  then show ?thesis by (simp add: initiateDownload_ok download_succeeds_def)
qed

lemma initiateDownload_advisory:
  "filter is_advisory (snd (snd (initiateDownload w source s))) =
     (if admitted w s then []
      else if passes w s then [rate_limit_advisory]
      else snd (snd (showSecurityBlockMessage s)))"
proof (cases rule: attempt_cases[of w s])
  case blocked
  then show ?thesis
    by (simp add: initiateDownload_blocked admitted_def passes_emitted
        showSecurityBlockMessage_def effects_def)
next
  case limited
  then show ?thesis
    by (simp add: initiateDownload_limited admitted_def showRateLimitMessage_def effects_def
        rate_limit_advisory_def)
next
  case no_crypto
  then show ?thesis by (simp add: initiateDownload_no_crypto)
next
  case no_storage
  then show ?thesis by (simp add: initiateDownload_no_storage)
next
  case probe_failed
  then show ?thesis by (simp add: initiateDownload_probe_failed)
next
  case ok
  then show ?thesis by (simp add: initiateDownload_ok)
qed

lemma initiateDownload_not_admitted:
  assumes "\<not> admitted w s"
  shows "fst (snd (initiateDownload w source s)) = s"
    and "filter is_ui_update (snd (snd (initiateDownload w source s))) = []"
    and "filter is_download_start (snd (snd (initiateDownload w source s))) = []"
    and "length (filter is_advisory (snd (snd (initiateDownload w source s)))) = 1"
    and "filter is_sink_call (snd (snd (initiateDownload w source s))) = []"
proof -
  have "initiateDownload w source s =
          (Inr False, s,
           snd (snd (passesSecurityChecks w s)) @ snd (snd (showSecurityBlockMessage s))) \<or>
        initiateDownload w source s = (Inr False, s, snd (snd (showRateLimitMessage s)))"
    using assms initiateDownload_blocked initiateDownload_limited
    unfolding admitted_def by blast
  then show "fst (snd (initiateDownload w source s)) = s"
    and "filter is_ui_update (snd (snd (initiateDownload w source s))) = []"
    and "filter is_download_start (snd (snd (initiateDownload w source s))) = []"
    and "length (filter is_advisory (snd (snd (initiateDownload w source s)))) = 1"
    and "filter is_sink_call (snd (snd (initiateDownload w source s))) = []"
    by (auto simp: passes_emitted showSecurityBlockMessage_def showRateLimitMessage_def
        effects_def)
qed

lemma initiateDownload_failure_logged:
  assumes "admitted w s" "\<not> download_succeeds w"
  shows "ConsoleError ''Download failed:'' \<in> set (snd (snd (initiateDownload w source s)))"
proof (cases rule: attempt_cases[of w s])
  case blocked
  with assms show ?thesis by (simp add: admitted_def)
next
  case limited
  with assms show ?thesis by (simp add: admitted_def)
next
  case no_crypto
  then show ?thesis by (rule initiateDownload_no_crypto)
next
  case no_storage
  then show ?thesis by (rule initiateDownload_no_storage)
next
  case probe_failed
  then show ?thesis by (rule initiateDownload_probe_failed)
next
  case ok
  with assms show ?thesis by simp
qed

lemma admitted_sinks [simp]:
  "admitted (w\<lparr>cloudflare := c, gtag := g, sendBeacon := b, analytics_response := r\<rparr>) s =
     admitted w s"
  by (simp add: admitted_def passes_iff environment_supported_def honeypot_clear_def)

lemma succeeds_sinks [simp]:
  "download_succeeds (w\<lparr>cloudflare := c, gtag := g, sendBeacon := b, analytics_response := r\<rparr>) =
     download_succeeds w"
  by (simp add: download_succeeds_def head_ok_def)

subsection \<open>The two halves of an attempt\<close>

lemma fetch_head_split:
  "fetch_head w url s = andThen (head_request w url s) (\<lambda>_ s. head_settles w s)"
  by (simp add: fetch_head_def head_request_def head_settles_def andThen_def
      split: response.splits)

lemma head_request_proj:
  "has_fetch w \<Longrightarrow> head_request w url s = (Inr (), s, [FetchHead url])"
  by (simp add: head_request_def)

lemma head_settles_after [simp]: "fst (snd (head_settles w s)) = s"
  by (simp add: head_settles_def split: response.splits)

lemma head_settles_emitted [simp]: "snd (snd (head_settles w s)) = []"
  by (simp add: head_settles_def split: response.splits)

lemma head_settles_fst:
  "head_ok w \<Longrightarrow> fst (head_settles w s) = Inr ()"
  "\<not> head_ok w \<Longrightarrow> \<exists>e. fst (head_settles w s) = Inl e"
  by (auto simp: head_settles_def head_ok_def split: response.splits)

lemma resumed_proj:
  "fst (resumed w' r) =
     (case fst r of Inl e \<Rightarrow> Inl e
      | Inr (Returned b) \<Rightarrow> Inr b
      | Inr (AwaitingHead url) \<Rightarrow> fst (finishDownload w' (fst (snd r))))"
  "fst (snd (resumed w' r)) =
     (case fst r of Inl e \<Rightarrow> fst (snd r)
      | Inr (Returned b) \<Rightarrow> fst (snd r)
      | Inr (AwaitingHead url) \<Rightarrow> fst (snd (finishDownload w' (fst (snd r)))))"
  "snd (snd (resumed w' r)) =
     (case fst r of Inl e \<Rightarrow> snd (snd r)
      | Inr (Returned b) \<Rightarrow> snd (snd r)
      | Inr (AwaitingHead url) \<Rightarrow> snd (snd r) @ snd (snd (finishDownload w' (fst (snd r)))))"
  by (cases r; cases "fst r"; auto simp: resumed_def case_prod_beta split: progress.splits)+

lemma run_eq_iff:
  "(r = r') \<longleftrightarrow> fst r = fst r' \<and> fst (snd r) = fst (snd r') \<and> snd (snd r) = snd (snd r')"
  by (auto simp: prod_eq_iff)

lemmas split_defs =
  beginDownload_def finishDownload_def verification_failed_def download_failed_def
  initiateDownload_def startSecureDownload_def verifyDownloadStart_def fetch_head_split
  seq_simps resumed_proj passes_fst effects_def throw_def
  showSecurityBlockMessage_def showRateLimitMessage_def updateDownloadUI_def
  trackDownload_proj Let_def

lemma resumed_begin_blocked:
  "\<not> passes w s \<Longrightarrow> resumed w (beginDownload w source s) = initiateDownload w source s"
  by (simp add: run_eq_iff split_defs)

lemma resumed_begin_limited:
  "passes w s \<Longrightarrow> \<not> checkRateLimit s \<Longrightarrow>
   resumed w (beginDownload w source s) = initiateDownload w source s"
  by (simp add: run_eq_iff split_defs)

lemma resumed_begin_no_crypto:
  "admitted w s \<Longrightarrow> \<not> has_crypto w \<Longrightarrow>
   resumed w (beginDownload w source s) = initiateDownload w source s"
  by (simp add: run_eq_iff split_defs admitted_def token_cases)

lemma resumed_begin_no_storage:
  assumes "admitted w s" "has_crypto w" "\<not> has_localStorage w"
  shows "resumed w (beginDownload w source s) = initiateDownload w source s"
proof -
  from assms obtain t where "generateDownloadToken w s = Inr t"
    using token_cases(1) by blast
  with assms show ?thesis
    by (simp add: run_eq_iff split_defs admitted_def)
qed

lemma resumed_begin_stored:
  assumes "admitted w s" "has_crypto w" "has_localStorage w"
  shows "resumed w (beginDownload w source s) = initiateDownload w source s"
proof -
  from assms obtain t where t: "generateDownloadToken w s = Inr t"
    using token_cases(1) by blast
  from assms have f: "has_fetch w"
    by (simp add: admitted_fetch)
  show ?thesis
  proof (cases "fst (head_settles w (recorded w s))")
    case (Inl e)
    with assms t f show ?thesis
      by (simp add: run_eq_iff split_defs admitted_def head_request_proj
          recorded_def[symmetric])
  next
    case (Inr u)
    with assms t f show ?thesis
      by (simp add: run_eq_iff split_defs admitted_def head_request_proj
          recorded_def[symmetric] updateRateLimit_def)
  qed
qed

lemma resumed_begin:
  "resumed w (beginDownload w source s) = initiateDownload w source s"
proof (cases rule: attempt_cases[of w s])
  case blocked
  then show ?thesis by (rule resumed_begin_blocked)
next
  case limited
  then show ?thesis by (rule resumed_begin_limited)
next
  case no_crypto
  then show ?thesis by (rule resumed_begin_no_crypto)
next
  case no_storage
  then show ?thesis by (rule resumed_begin_no_storage)
next
  case probe_failed
  then show ?thesis by (simp add: resumed_begin_stored)
next
  case ok
  then show ?thesis by (simp add: resumed_begin_stored download_succeeds_def)
qed

lemma beginDownload_admitted:
  assumes "admitted w s" "has_crypto w" "has_localStorage w"
  shows "fst (beginDownload w source s) =
           Inr (AwaitingHead (buildSecureDownloadUrl w (projr (generateDownloadToken w s))
             (recorded w s)))"
    and "fst (snd (beginDownload w source s)) = recorded w s"
proof -
  from assms obtain t where t: "generateDownloadToken w s = Inr t"
    using token_cases(1) by blast
  from assms have f: "has_fetch w"
    by (simp add: admitted_fetch)
  from assms t f show "fst (beginDownload w source s) =
           Inr (AwaitingHead (buildSecureDownloadUrl w (projr (generateDownloadToken w s))
             (recorded w s)))"
    and "fst (snd (beginDownload w source s)) = recorded w s"
    by (simp_all add: split_defs admitted_def head_request_proj recorded_def[symmetric])
qed

lemma finishDownload_ok:
  assumes "head_ok w" "has_localStorage w"
  shows "fst (finishDownload w s) = Inr True"
    and "fst (snd (finishDownload w s)) =
           s\<lparr>rateLimitCount := rateLimitCount s + 1,
             download_rate_limit :=
               Some \<lparr>count = rateLimitCount s + 1, windowStart = now w\<rparr>\<rparr>"
  using assms
  by (simp_all add: split_defs head_settles_fst updateRateLimit_def)

lemma begin_all_proj:
  "fst (begin_all (w # ws) source s) =
     fst (beginDownload w source s) #
     fst (begin_all ws source (fst (snd (beginDownload w source s))))"
  "fst (snd (begin_all (w # ws) source s)) =
     fst (snd (begin_all ws source (fst (snd (beginDownload w source s)))))"
  "fst (begin_all [] source s) = []"
  "fst (snd (begin_all [] source s)) = s"
  by (simp_all add: case_prod_beta)

lemma finish_all_proj:
  "fst (finish_all ((w', p) # rest) s) =
     fst (resumed w' (p, s, [])) # fst (finish_all rest (fst (snd (resumed w' (p, s, [])))))"
  "fst (snd (finish_all ((w', p) # rest) s)) =
     fst (snd (finish_all rest (fst (snd (resumed w' (p, s, []))))))"
  "fst (finish_all [] s) = []"
  "fst (snd (finish_all [] s)) = s"
  by (simp_all add: case_prod_beta)

lemma overlapped_proj:
  "fst (overlapped ws ws' source s) =
     fst (finish_all (zip ws' (fst (begin_all ws source s))) (fst (snd (begin_all ws source s))))"
  "fst (snd (overlapped ws ws' source s)) =
     fst (snd (finish_all (zip ws' (fst (begin_all ws source s)))
       (fst (snd (begin_all ws source s)))))"
  by (simp_all add: overlapped_def case_prod_beta)

declare begin_all.simps [simp del] finish_all.simps [simp del]

lemma recorded_fields:
  "rateLimitCount (recorded w s) = rateLimitCount s"
  "botScore (recorded w s) = botScore s"
  "download_rate_limit (recorded w s) = download_rate_limit s"
  by (simp_all add: recorded_def)

subsection \<open>A visit\<close>

lemma clicks_Cons_proj:
  "fst (clicks (w # ws) source s) =
     fst (initiateDownload w source s) #
     fst (clicks ws source (fst (snd (initiateDownload w source s))))"
  "fst (snd (clicks (w # ws) source s)) =
     fst (snd (clicks ws source (fst (snd (initiateDownload w source s)))))"
  "snd (snd (clicks (w # ws) source s)) =
     snd (snd (initiateDownload w source s)) @
     snd (snd (clicks ws source (fst (snd (initiateDownload w source s)))))"
  by (simp_all add: case_prod_beta)

lemma clicks_Nil_proj [simp]:
  "fst (clicks [] source s) = []"
  "fst (snd (clicks [] source s)) = s"
  "snd (snd (clicks [] source s)) = []"
  by simp_all

declare clicks.simps [simp del]

lemma healthy_click:
  assumes "healthy w" "botScore s \<le> 50"
  shows "fst (initiateDownload w source s) = Inr (checkRateLimit s)"
    and "rateLimitCount (fst (snd (initiateDownload w source s))) =
           (if checkRateLimit s then rateLimitCount s + 1 else rateLimitCount s)"
    and "botScore (fst (snd (initiateDownload w source s))) = botScore s"
    and "filter is_advisory (snd (snd (initiateDownload w source s))) =
           (if checkRateLimit s then [] else [rate_limit_advisory])"
    and "filter is_ui_update (snd (snd (initiateDownload w source s))) =
           (if checkRateLimit s then [UpdateDownloadUI Preparing, UpdateDownloadUI Success]
            else [])"
proof -
  from assms have p: "passes w s" and d: "download_succeeds w"
    by (simp_all add: healthy_def passes_iff)
  then have a: "admitted w s = checkRateLimit s"
    by (simp add: admitted_def)
  from a d show "fst (initiateDownload w source s) = Inr (checkRateLimit s)"
    by (simp add: initiateDownload_fst)
  from a d show "rateLimitCount (fst (snd (initiateDownload w source s))) =
           (if checkRateLimit s then rateLimitCount s + 1 else rateLimitCount s)"
    by (simp add: initiateDownload_count)
  show "botScore (fst (snd (initiateDownload w source s))) = botScore s"
    by (rule initiateDownload_botScore)
  from a d show "filter is_ui_update (snd (snd (initiateDownload w source s))) =
           (if checkRateLimit s then [UpdateDownloadUI Preparing, UpdateDownloadUI Success]
            else [])"
    by (simp add: initiateDownload_ui)
  show "filter is_advisory (snd (snd (initiateDownload w source s))) =
           (if checkRateLimit s then [] else [rate_limit_advisory])"
  proof (cases "checkRateLimit s")
    case True
    with a d show ?thesis by (simp add: initiateDownload_ok)
  next
    case False
    with p show ?thesis
      by (simp add: initiateDownload_limited showRateLimitMessage_def effects_def
          rate_limit_advisory_def)
  qed
qed

lemma clicks_healthy:
  assumes "\<forall>w \<in> set ws. healthy w" and "botScore s \<le> 50"
  shows "fst (clicks ws source s) =
           replicate (min (length ws) (maxDownloadsPerWindow - rateLimitCount s)) (Inr True) @
           replicate (length ws - (maxDownloadsPerWindow - rateLimitCount s)) (Inr False) \<and>
         rateLimitCount (fst (snd (clicks ws source s))) =
           rateLimitCount s + min (length ws) (maxDownloadsPerWindow - rateLimitCount s) \<and>
         filter is_advisory (snd (snd (clicks ws source s))) =
           replicate (length ws - (maxDownloadsPerWindow - rateLimitCount s))
             rate_limit_advisory \<and>
         filter is_ui_update (snd (snd (clicks ws source s))) =
           concat (replicate (min (length ws) (maxDownloadsPerWindow - rateLimitCount s))
             [UpdateDownloadUI Preparing, UpdateDownloadUI Success])"
  using assms
proof (induction ws arbitrary: s)
  case Nil
  show ?case by simp
next
  case (Cons w ws)
  let ?s = "fst (snd (initiateDownload w source s))"
  from Cons.prems have h: "healthy w" and b: "botScore s \<le> 50"
    by simp_all
  note step = healthy_click [OF h b, of source]
  from Cons.prems step(3) have ih: "\<forall>w \<in> set ws. healthy w" "botScore ?s \<le> 50"
    by simp_all
  note IH = Cons.IH [OF ih]
  show ?case
  proof (cases "checkRateLimit s")
    case True
    then have c: "rateLimitCount s < maxDownloadsPerWindow"
      by (simp add: checkRateLimit_def)
    then have m: "min (Suc (length ws)) (maxDownloadsPerWindow - rateLimitCount s) =
        Suc (min (length ws) (maxDownloadsPerWindow - (rateLimitCount s + 1)))"
      "Suc (length ws) - (maxDownloadsPerWindow - rateLimitCount s) =
        length ws - (maxDownloadsPerWindow - (rateLimitCount s + 1))"
      by simp_all
    from True IH step show ?thesis
      by (simp add: clicks_Cons_proj m)
  next
    case False
    then have c: "maxDownloadsPerWindow - rateLimitCount s = 0"
      by (simp add: checkRateLimit_def)
    from False IH step show ?thesis
      by (simp add: clicks_Cons_proj c)
  qed
qed


lemma clicks_botScore:
  "botScore (fst (snd (clicks ws source s))) = botScore s"
  by (induction ws arbitrary: s)
     (simp_all add: clicks_Cons_proj initiateDownload_botScore)

lemma clicks_length: "length (fst (clicks ws source s)) = length ws"
  by (induction ws arbitrary: s) (simp_all add: clicks_Cons_proj)

lemma clicks_count:
  "rateLimitCount (fst (snd (clicks ws source s))) =
     rateLimitCount s + count_list (fst (clicks ws source s)) (Inr True)"
  by (induction ws arbitrary: s)
     (simp_all add: clicks_Cons_proj initiateDownload_count initiateDownload_fst)

lemma clicks_count_le:
  "rateLimitCount (fst (snd (clicks ws source s))) \<le> rateLimitCount s + length ws"
  using count_le_length [of "fst (clicks ws source s)" "Inr True"]
  by (simp add: clicks_count clicks_length)

lemma clicks_bound:
  "rateLimitCount s \<le> maxDownloadsPerWindow \<Longrightarrow>
   rateLimitCount (fst (snd (clicks ws source s))) \<le> maxDownloadsPerWindow"
proof (induction ws arbitrary: s)
  case Nil
  then show ?case by simp
next
  case (Cons w ws)
  have "rateLimitCount (fst (snd (initiateDownload w source s))) \<le> maxDownloadsPerWindow"
    using Cons.prems
    by (auto simp: initiateDownload_count admitted_def checkRateLimit_def)
  then show ?case
    by (simp add: clicks_Cons_proj Cons.IH)
qed

subsection \<open>The page and the browsers of the examples\<close>

lemma score_automated: "calculateBotScore automated = 50"
  by code_simp

lemma score_headless: "calculateBotScore headless = 75"
  by code_simp

lemma score_desktop: "calculateBotScore desktop = 10"
  by code_simp

lemma loaded_eq:
  "has_localStorage w \<Longrightarrow> loaded w = alpha\<lparr>botScore := calculateBotScore w\<rparr>"
  by (simp add: loaded_def after_def setupSecurityChecks_def initRateLimiting_def alpha_def)

lemma loaded_automated: "loaded automated = alpha\<lparr>botScore := 50\<rparr>"
proof -
  have "has_localStorage automated"
    by (simp add: automated_def desktop_def)
  then show ?thesis
    by (simp add: loaded_eq score_automated)
qed

lemma loaded_headless: "loaded headless = alpha\<lparr>botScore := 75\<rparr>"
proof -
  have "has_localStorage headless"
    by (simp add: headless_def desktop_def)
  then show ?thesis
    by (simp add: loaded_eq score_headless)
qed

lemma loaded_desktop: "loaded desktop = alpha\<lparr>botScore := 10\<rparr>"
proof -
  have "has_localStorage desktop"
    by (simp add: desktop_def)
  then show ?thesis
    by (simp add: loaded_eq score_desktop)
qed

lemma admitted_automated: "admitted automated (loaded automated)"
  unfolding loaded_automated
  by (simp add: admitted_def passes_iff checkRateLimit_def
      maxDownloadsPerWindow_def environment_supported_def honeypot_clear_def
      automated_def desktop_def alpha_def)

lemma succeeds_automated: "download_succeeds automated"
  by (simp add: download_succeeds_def head_ok_def response_ok_def automated_def desktop_def)

lemma admitted_desktop: "admitted desktop (loaded desktop)"
  unfolding loaded_desktop
  by (simp add: admitted_def passes_iff checkRateLimit_def maxDownloadsPerWindow_def
      environment_supported_def honeypot_clear_def desktop_def alpha_def)

lemma succeeds_desktop: "download_succeeds desktop"
  by (simp add: download_succeeds_def head_ok_def response_ok_def desktop_def)

lemma admitted_missing_file:
  "admitted (desktop\<lparr>head_response := Status 404\<rparr>) (loaded desktop)"
  unfolding loaded_desktop
  by (simp add: admitted_def passes_iff checkRateLimit_def maxDownloadsPerWindow_def
      environment_supported_def honeypot_clear_def desktop_def alpha_def)

lemma fails_missing_file: "\<not> download_succeeds (desktop\<lparr>head_response := Status 404\<rparr>)"
  by (simp add: download_succeeds_def head_ok_def response_ok_def desktop_def)

lemma not_admitted_headless: "\<not> admitted headless (loaded headless)"
  unfolding loaded_headless by (simp add: admitted_def passes_iff)

lemma headless_sinks:
  "cloudflare headless = Works" "gtag headless = Works" "has_fetch headless"
  "analytics_response headless = Status 204"
  by (simp_all add: headless_def desktop_def)

lemma desktop_sinks:
  "cloudflare desktop = Missing" "gtag desktop = Works" "sendBeacon desktop = Works"
  "has_fetch desktop" "analytics_response desktop = Status 204"
  by (simp_all add: desktop_def)

lemma at_time_fields:
  "has_localStorage (at_time t)" "now (at_time t) = t" "download_succeeds (at_time t)"
  "environment_supported (at_time t)" "honeypot_clear (at_time t)" "has_crypto (at_time t)"
  "head_ok (at_time t)" "getReferrer (at_time t) = ''direct''"
  by (simp_all add: at_time_def desktop_def download_succeeds_def head_ok_def response_ok_def
      environment_supported_def honeypot_clear_def getReferrer_def)

lemma loaded_fields:
  "botScore (loaded desktop) = 10" "rateLimitCount (loaded desktop) = 0"
  "download_rate_limit (loaded desktop) = None"
  by (simp_all add: loaded_desktop alpha_def)

lemma healthy_at_time: "healthy (at_time t)"
  by (simp add: healthy_def at_time_fields)

lemma missing_file_fields:
  "environment_supported ((at_time t)\<lparr>head_response := Status 404\<rparr>)"
  "honeypot_clear ((at_time t)\<lparr>head_response := Status 404\<rparr>)"
  "\<not> download_succeeds ((at_time t)\<lparr>head_response := Status 404\<rparr>)"
  by (simp_all add: at_time_def desktop_def download_succeeds_def head_ok_def response_ok_def
      environment_supported_def honeypot_clear_def)

lemmas click_simps =
  clicks_Cons_proj clicks_Nil_proj initiateDownload_fst initiateDownload_count
  initiateDownload_botScore initiateDownload_ui initiateDownload_advisory
  admitted_def passes_iff checkRateLimit_def maxDownloadsPerWindow_def
  at_time_fields loaded_fields missing_file_fields

lemma after_three_clicks:
  "rateLimitCount (after (clicks [at_time 1000, at_time 5000, at_time 10000, at_time 15000]
     ''primary_cta'' (loaded desktop))) = 3"
  "botScore (after (clicks [at_time 1000, at_time 5000, at_time 10000, at_time 15000]
     ''primary_cta'' (loaded desktop))) = 10"
  by (simp_all add: after_def click_simps)

lemma window_after_three_clicks:
  "download_rate_limit (after (clicks [at_time 1000, at_time 5000, at_time 10000, at_time 15000]
     ''primary_cta'' (loaded desktop))) = Some \<lparr>count = 3, windowStart = 10000\<rparr>"
  by (simp add: after_def clicks_Cons_proj initiateDownload_after admitted_def passes_iff
      checkRateLimit_def maxDownloadsPerWindow_def at_time_fields loaded_fields recorded_def
     )

lemma nonce_desktop:
  "generateNonce (at_time 1700000000000) = Inr ''3a3a3a3a3a3a3a3a3a3a3a3a3a3a3a3a''"
  by code_simp

lemma nonce_later:
  "generateNonce ((at_time 1700000060000)\<lparr>random_bytes := (\<lambda>i. 0xC5)\<rparr>) =
     Inr ''c5c5c5c5c5c5c5c5c5c5c5c5c5c5c5c5''"
  by code_simp

lemma loaded_venture: "(loaded desktop)\<lparr>venture := ''Alpha Workspace''\<rparr> = loaded desktop"
  by (simp add: loaded_desktop alpha_def)

lemma four_overlapping:
  "fst (overlapped [at_time 1000, at_time 1100, at_time 1200, at_time 1300]
      [at_time 2000, at_time 2100, at_time 2200, at_time 2300] ''secondary'' (loaded desktop)) =
     [Inr True, Inr True, Inr True, Inr True] \<and>
   rateLimitCount (after (overlapped [at_time 1000, at_time 1100, at_time 1200, at_time 1300]
      [at_time 2000, at_time 2100, at_time 2200, at_time 2300] ''secondary'' (loaded desktop))) =
     4"
  by (simp add: after_def recorded_fields overlapped_proj begin_all_proj finish_all_proj beginDownload_admitted
      finishDownload_ok resumed_proj admitted_def passes_iff checkRateLimit_def
      maxDownloadsPerWindow_def at_time_fields loaded_fields)

lemma three_clicks:
  "fst (clicks [at_time 1000, at_time 5000, at_time 10000] ''primary_cta'' (loaded desktop)) =
     [Inr True, Inr True, Inr True]"
  "botScore (loaded desktop) \<le> 50"
  by (simp_all add: click_simps)

lemma three_clicks_one_failed:
  "fst (clicks [(at_time 1000)\<lparr>head_response := Status 404\<rparr>, at_time 5000, at_time 10000]
     ''primary_cta'' (loaded desktop)) = [Inr False, Inr True, Inr True]"
  by (simp add: click_simps)

section \<open>The claims\<close>

subsection \<open>The bot score gate\<close>

text \<open>
  Claim C2, as the code has it: for every attempt whose session bot score is above 50,
  whatever the browser, the source tag and the rate limiter's counter and stored window,
  \<^verbatim>\<open>initiateDownload\<close> returns false, leaves the manager and both storage keys as they
  were, and does nothing but warn on the console and show the security advisory: the
  buttons never enter the preparing state, no token is drawn and no download starts.
\<close>

theorem high_bot_score_blocks:
  assumes "botScore s > 50"
  shows "initiateDownload w source s =
           (Inr False, s,
            ConsoleWarn ''High bot score detected:'' # emitted (showSecurityBlockMessage s))"
proof -
  from assms have "\<not> passes w s"
    by (simp add: passes_iff)
  with assms show ?thesis
    by (simp add: initiateDownload_blocked passes_emitted emitted_def)
qed

text \<open>The headless browser scores 75 and is blocked.\<close>

theorem high_bot_score_blocks_witness:
  "botScore (loaded headless) > 50 \<and>
   initiateDownload headless ''primary_cta'' (loaded headless) =
     (Inr False, loaded headless,
      [ConsoleWarn ''High bot score detected:'',
       ShowMessage ''Download Temporarily Unavailable''
         ''Our security systems have detected unusual activity. Please try again later or contact support if this persists.''
         ''warning''])"
proof -
  have h: "botScore (loaded headless) > 50"
    by (simp add: loaded_headless)
  show ?thesis
    using h high_bot_score_blocks [OF h, of headless "''primary_cta''"]
    by (simp add: emitted_def showSecurityBlockMessage_def effects_def)
qed

text \<open>
  At a score of exactly 50 the gate is open (the test is \<^verbatim>\<open>botScore > 50\<close>): the automated
  browser scores 20 + 30, its click goes through preparing to success, the hidden link is
  clicked and the stored window changes.
\<close>

theorem bot_score_50_is_admitted:
  "botScore (loaded automated) = 50 \<and>
   outcome (initiateDownload automated ''primary_cta'' (loaded automated)) = Inr True \<and>
   filter is_ui_update (emitted (initiateDownload automated ''primary_cta'' (loaded automated))) =
     [UpdateDownloadUI Preparing, UpdateDownloadUI Success] \<and>
   length (filter is_download_start
     (emitted (initiateDownload automated ''primary_cta'' (loaded automated)))) = 1 \<and>
   download_rate_limit (loaded automated) = None \<and>
   download_rate_limit (after (initiateDownload automated ''primary_cta'' (loaded automated))) =
     Some \<lparr>count = 1, windowStart = now automated\<rparr>"
  using initiateDownload_ok [OF admitted_automated succeeds_automated, of "''primary_cta''"]
  by (simp add: outcome_def emitted_def after_def recorded_def loaded_automated alpha_def)

text \<open>
  Claim C7, as the code has it: for every attempt made in a browser without \<^verbatim>\<open>fetch\<close> or
  without \<^verbatim>\<open>Promise\<close>, the attempt never starts: \<^verbatim>\<open>initiateDownload\<close> returns false, the
  manager and the storage are as before, and the only effects are one console warning and
  the security advisory. The bot score is tested first: the warning names the unsupported
  environment exactly when the score is at most 50, and the high score otherwise. Neither
  the honeypot field nor the rate limiter is consulted. The separate utility
  \<^verbatim>\<open>validateDownloadEnvironment\<close> answers false in such a browser.
\<close>

theorem unsupported_environment_never_starts:
  assumes "\<not> has_fetch w \<or> \<not> has_Promise w"
  shows "initiateDownload w source s =
           (Inr False, s,
            ConsoleWarn (if botScore s > 50 then ''High bot score detected:''
                         else ''Unsupported browser environment'') #
            emitted (showSecurityBlockMessage s)) \<and>
         fst (validateDownloadEnvironment w) = False"
proof -
  from assms have "\<not> passes w s" and env: "\<not> environment_supported w"
    by (auto simp: passes_iff environment_supported_def)
  then have "initiateDownload w source s =
           (Inr False, s,
            ConsoleWarn (if botScore s > 50 then ''High bot score detected:''
                         else ''Unsupported browser environment'') #
            emitted (showSecurityBlockMessage s))"
    by (simp add: initiateDownload_blocked passes_emitted emitted_def)
  moreover from assms have "fst (validateDownloadEnvironment w) = False"
    by (auto simp: validateDownloadEnvironment_def Let_def)
  ultimately show ?thesis by simp
qed

text \<open>A desktop browser without \<^verbatim>\<open>fetch\<close>, with a score of 10.\<close>

theorem unsupported_environment_never_starts_witness:
  "\<not> has_fetch (desktop\<lparr>has_fetch := False\<rparr>) \<and>
   initiateDownload (desktop\<lparr>has_fetch := False\<rparr>) ''primary_cta'' (loaded desktop) =
     (Inr False, loaded desktop,
      [ConsoleWarn ''Unsupported browser environment'',
       ShowMessage ''Download Temporarily Unavailable''
         ''Our security systems have detected unusual activity. Please try again later or contact support if this persists.''
         ''warning''])"
proof -
  have h: "\<not> has_fetch (desktop\<lparr>has_fetch := False\<rparr>) \<or>
           \<not> has_Promise (desktop\<lparr>has_fetch := False\<rparr>)"
    by simp
  have b: "\<not> botScore (loaded desktop) > 50"
    by (simp add: loaded_desktop)
  show ?thesis
    using unsupported_environment_never_starts
      [OF h, of "''primary_cta''" "loaded desktop"] b
    by (simp add: emitted_def showSecurityBlockMessage_def effects_def)
qed

text \<open>
  In the headless browser without \<^verbatim>\<open>fetch\<close> the first and only gate that reports is the bot
  score: the unsupported environment is not what stops the attempt.
\<close>

theorem bot_gate_runs_before_environment_check:
  "\<not> has_fetch (headless\<lparr>has_fetch := False\<rparr>) \<and>
   emitted (initiateDownload (headless\<lparr>has_fetch := False\<rparr>) ''primary_cta''
     (loaded headless)) =
     [ConsoleWarn ''High bot score detected:'',
      ShowMessage ''Download Temporarily Unavailable''
        ''Our security systems have detected unusual activity. Please try again later or contact support if this persists.''
        ''warning'']"
proof -
  have "\<not> passes (headless\<lparr>has_fetch := False\<rparr>) (loaded headless)"
    by (simp add: passes_iff loaded_headless)
  then show ?thesis
    by (simp add: initiateDownload_blocked passes_emitted emitted_def loaded_headless
        showSecurityBlockMessage_def effects_def)
qed

subsection \<open>Security events\<close>

text \<open>
  Claim C6 does not hold of the code: for every attempt blocked by the bot score or by a
  filled honeypot field, no telemetry sink is called at all, so no security event is
  emitted; the user-visible advisory is the only trace. (\<^verbatim>\<open>reportSecurityEvent\<close> exists,
  and nothing calls it.)
\<close>

theorem blocked_attempt_reports_no_security_event:
  assumes "botScore s > 50 \<or> \<not> honeypot_clear w"
  shows "filter is_sink_call (emitted (initiateDownload w source s)) = []"
proof -
  from assms have "\<not> admitted w s"
    by (auto simp: admitted_def passes_iff)
  then show ?thesis
    by (simp add: emitted_def initiateDownload_not_admitted)
qed

text \<open>
  The blocked headless browser and a filled honeypot field: no sink call from the attempt,
  whereas a call of \<^verbatim>\<open>reportSecurityEvent\<close> in the headless browser would have reached
  three sinks.
\<close>

theorem blocked_attempt_reports_no_security_event_witness:
  "botScore (loaded headless) > 50 \<and>
   filter is_sink_call (emitted (initiateDownload headless ''primary_cta'' (loaded headless))) =
     [] \<and>
   filter is_sink_call (emitted (initiateDownload (desktop\<lparr>honeypot := Some ''x''\<rparr>)
     ''primary_cta'' (loaded desktop))) = [] \<and>
   length (filter is_sink_call
     (emitted (reportSecurityEvent headless ''download_blocked'' ''bot_score''
        (loaded headless)))) = 3"
proof -
  have b: "botScore (loaded headless) > 50"
    by (simp add: loaded_headless)
  then have h: "botScore (loaded headless) > 50 \<or> \<not> honeypot_clear headless"
    by simp
  have "length (filter is_sink_call
     (emitted (reportSecurityEvent headless ''download_blocked'' ''bot_score''
        (loaded headless)))) = 3"
    by (simp add: emitted_def reportSecurityEvent_def sendAnalytics_def seq_simps
        sendToCloudflare_def sendToGoogleAnalytics_def sendToCustomEndpoint_def
        fetch_post_def headless_sinks)
  moreover have "botScore (loaded desktop) > 50 \<or>
      \<not> honeypot_clear (desktop\<lparr>honeypot := Some ''x''\<rparr>)"
    by (simp add: honeypot_clear_def)
  note blocked_attempt_reports_no_security_event [OF this, of "''primary_cta''"]
  ultimately show ?thesis
    using b blocked_attempt_reports_no_security_event [OF h, of "''primary_cta''"]
    by simp
qed

subsection \<open>What the caller of an attempt sees\<close>

text \<open>
  Claim C10: for every browser, source tag and manager, \<^verbatim>\<open>initiateDownload\<close> returns a
  boolean and never throws. It returns true exactly when the buttons reached the success
  state, which is when the attempt was admitted and nothing after the gates failed. When a
  gate blocks the attempt the buttons are not touched, no download starts and one advisory
  is shown. When an admitted attempt fails, the handler logs the failure and the buttons
  go from preparing to error.
\<close>

theorem initiateDownload_never_throws:
  "outcome (initiateDownload w source s) = Inr (admitted w s \<and> download_succeeds w) \<and>
   (outcome (initiateDownload w source s) = Inr True \<longleftrightarrow>
      UpdateDownloadUI Success \<in> set (emitted (initiateDownload w source s))) \<and>
   (\<not> admitted w s \<longrightarrow>
      filter is_ui_update (emitted (initiateDownload w source s)) = [] \<and>
      filter is_download_start (emitted (initiateDownload w source s)) = [] \<and>
      length (filter is_advisory (emitted (initiateDownload w source s))) = 1) \<and>
   (admitted w s \<and> \<not> download_succeeds w \<longrightarrow>
      filter is_ui_update (emitted (initiateDownload w source s)) =
        [UpdateDownloadUI Preparing, UpdateDownloadUI Error] \<and>
      ConsoleError ''Download failed:'' \<in> set (emitted (initiateDownload w source s)))"
proof -
  have ui: "UpdateDownloadUI Success \<in> set (emitted (initiateDownload w source s)) \<longleftrightarrow>
        UpdateDownloadUI Success \<in>
          set (filter is_ui_update (snd (snd (initiateDownload w source s))))"
    by (simp add: emitted_def)
  have "outcome (initiateDownload w source s) = Inr (admitted w s \<and> download_succeeds w)"
    by (simp add: outcome_def initiateDownload_fst)
  moreover have "outcome (initiateDownload w source s) = Inr True \<longleftrightarrow>
      UpdateDownloadUI Success \<in> set (emitted (initiateDownload w source s))"
    unfolding ui initiateDownload_ui by (simp add: outcome_def initiateDownload_fst)
  moreover have "\<not> admitted w s \<longrightarrow>
      filter is_ui_update (emitted (initiateDownload w source s)) = [] \<and>
      filter is_download_start (emitted (initiateDownload w source s)) = [] \<and>
      length (filter is_advisory (emitted (initiateDownload w source s))) = 1"
    by (simp add: emitted_def initiateDownload_not_admitted)
  moreover have "admitted w s \<and> \<not> download_succeeds w \<longrightarrow>
      filter is_ui_update (emitted (initiateDownload w source s)) =
        [UpdateDownloadUI Preparing, UpdateDownloadUI Error] \<and>
      ConsoleError ''Download failed:'' \<in> set (emitted (initiateDownload w source s))"
    by (simp add: emitted_def initiateDownload_ui initiateDownload_failure_logged)
  ultimately show ?thesis by blast
qed

text \<open>A successful click, a click whose file is missing, and a blocked click.\<close>

theorem initiateDownload_never_throws_witness:
  "outcome (initiateDownload desktop ''primary_cta'' (loaded desktop)) = Inr True \<and>
   UpdateDownloadUI Success \<in>
     set (emitted (initiateDownload desktop ''primary_cta'' (loaded desktop))) \<and>
   outcome (initiateDownload (desktop\<lparr>head_response := Status 404\<rparr>) ''primary_cta''
     (loaded desktop)) = Inr False \<and>
   filter is_ui_update (emitted (initiateDownload (desktop\<lparr>head_response := Status 404\<rparr>)
     ''primary_cta'' (loaded desktop))) = [UpdateDownloadUI Preparing, UpdateDownloadUI Error] \<and>
   outcome (initiateDownload headless ''primary_cta'' (loaded headless)) = Inr False \<and>
   filter is_ui_update (emitted (initiateDownload headless ''primary_cta'' (loaded headless))) =
     []"
  using initiateDownload_never_throws [of desktop "''primary_cta''" "loaded desktop"]
    initiateDownload_never_throws [of "desktop\<lparr>head_response := Status 404\<rparr>"
      "''primary_cta''" "loaded desktop"]
    initiateDownload_never_throws [of headless "''primary_cta''" "loaded headless"]
    admitted_desktop succeeds_desktop admitted_missing_file fails_missing_file
    not_admitted_headless
  by auto

subsection \<open>The telemetry dispatcher\<close>

text \<open>
  Claim C8, as the code has it: for every telemetry event, \<^verbatim>\<open>sendAnalytics\<close> never throws
  to its caller and leaves the manager as it was. The sinks are tried in the order
  Cloudflare, Google Analytics, custom endpoint, inside one \<^verbatim>\<open>try\<close> block: a sink that
  throws is logged with one console warning and ends the dispatch, so the sinks after it
  are not tried for that event. Only when neither mirror throws is the custom endpoint
  reached.
\<close>

theorem sendAnalytics_stops_at_first_failing_sink:
  "outcome (sendAnalytics w data s) = Inr () \<and>
   after (sendAnalytics w data s) = s \<and>
   (cloudflare w = Raises \<longrightarrow>
      emitted (sendAnalytics w data s) =
        [CloudflareTrack data, ConsoleWarn ''Analytics tracking failed:'']) \<and>
   (cloudflare w \<noteq> Raises \<and> gtag w = Raises \<longrightarrow>
      emitted (sendAnalytics w data s) =
        emitted (sendToCloudflare w data s) @
        [GtagEvent data, ConsoleWarn ''Analytics tracking failed:'']) \<and>
   (cloudflare w \<noteq> Raises \<and> gtag w \<noteq> Raises \<longrightarrow>
      emitted (sendAnalytics w data s) =
        emitted (sendToCloudflare w data s) @ emitted (sendToGoogleAnalytics w data s) @
        emitted (sendToCustomEndpoint w data s) @
        (if outcome (sendToCustomEndpoint w data s) = Inr () then []
         else [ConsoleWarn ''Analytics tracking failed:'']))"
proof -
  have "cloudflare w = Raises \<longrightarrow>
      emitted (sendAnalytics w data s) =
        [CloudflareTrack data, ConsoleWarn ''Analytics tracking failed:'']"
    by (simp add: emitted_def sendAnalytics_def seq_simps sendToCloudflare_fst
        sendToCloudflare_raises effects_def)
  moreover have "cloudflare w \<noteq> Raises \<and> gtag w = Raises \<longrightarrow>
      emitted (sendAnalytics w data s) =
        emitted (sendToCloudflare w data s) @
        [GtagEvent data, ConsoleWarn ''Analytics tracking failed:'']"
    by (simp add: emitted_def sendAnalytics_def seq_simps sendToCloudflare_fst
        sendToGoogleAnalytics_fst sendToGoogleAnalytics_raises effects_def)
  moreover have "cloudflare w \<noteq> Raises \<and> gtag w \<noteq> Raises \<longrightarrow>
      emitted (sendAnalytics w data s) =
        emitted (sendToCloudflare w data s) @ emitted (sendToGoogleAnalytics w data s) @
        emitted (sendToCustomEndpoint w data s) @
        (if outcome (sendToCustomEndpoint w data s) = Inr () then []
         else [ConsoleWarn ''Analytics tracking failed:''])"
    by (cases "fst (sendToCustomEndpoint w data s)")
       (simp_all add: emitted_def outcome_def sendAnalytics_def seq_simps sendToCloudflare_fst
        sendToGoogleAnalytics_fst sendToGoogleAnalytics_missing effects_def)
  ultimately show ?thesis
    by (simp add: outcome_def after_def)
qed

text \<open>
  A throwing Cloudflare hook, a throwing Google Analytics hook, and a browser where every
  sink works.
\<close>

theorem sendAnalytics_stops_at_first_failing_sink_witness:
  "outcome (sendAnalytics (desktop\<lparr>cloudflare := Raises\<rparr>) page_view alpha) = Inr () \<and>
   emitted (sendAnalytics (desktop\<lparr>cloudflare := Raises\<rparr>) page_view alpha) =
     [CloudflareTrack page_view, ConsoleWarn ''Analytics tracking failed:''] \<and>
   outcome (sendAnalytics (desktop\<lparr>gtag := Raises\<rparr>) page_view alpha) = Inr () \<and>
   emitted (sendAnalytics (desktop\<lparr>gtag := Raises\<rparr>) page_view alpha) =
     [GtagEvent page_view, ConsoleWarn ''Analytics tracking failed:''] \<and>
   outcome (sendAnalytics desktop page_view alpha) = Inr () \<and>
   emitted (sendAnalytics desktop page_view alpha) =
     [GtagEvent page_view, FetchPost ''/api/analytics'' page_view]"
  using sendAnalytics_stops_at_first_failing_sink [of "desktop\<lparr>cloudflare := Raises\<rparr>" page_view alpha]
    sendAnalytics_stops_at_first_failing_sink [of "desktop\<lparr>gtag := Raises\<rparr>" page_view alpha]
    sendAnalytics_stops_at_first_failing_sink [of desktop page_view alpha]
  by (simp add: desktop_sinks emitted_def outcome_def sendToCloudflare_def
      sendToGoogleAnalytics_def sendToCustomEndpoint_def fetch_post_def tryCatch_def)

text \<open>
  With a Cloudflare hook that throws, the working Google Analytics hook and the working
  endpoint are never called for the event.
\<close>

theorem failing_cloudflare_sink_skips_the_others:
  "gtag (desktop\<lparr>cloudflare := Raises\<rparr>) = Works \<and>
   has_fetch (desktop\<lparr>cloudflare := Raises\<rparr>) \<and>
   analytics_response (desktop\<lparr>cloudflare := Raises\<rparr>) = Status 204 \<and>
   emitted (sendAnalytics (desktop\<lparr>cloudflare := Raises\<rparr>) page_view alpha) =
     [CloudflareTrack page_view, ConsoleWarn ''Analytics tracking failed:'']"
  by (simp add: desktop_sinks emitted_def sink_defs)

text \<open>
  Claim C9: no telemetry failure reaches the download flow. \<^verbatim>\<open>sendAnalytics\<close> never throws.
  When the POST to \<^verbatim>\<open>/api/analytics\<close> rejects, or \<^verbatim>\<open>fetch\<close> itself throws, the same event
  goes to \<^verbatim>\<open>navigator.sendBeacon\<close> on the same path, whenever the browser has
  \<^verbatim>\<open>sendBeacon\<close>; when the POST resolves, no beacon is sent. Whatever the four sinks do,
  the result of \<^verbatim>\<open>initiateDownload\<close>, the manager afterwards and the states of the buttons
  are the same; in particular an admitted click whose download succeeds reaches success
  with an endpoint that rejects.
\<close>

theorem telemetry_failure_never_blocks_download:
  "outcome (sendAnalytics w data s) = Inr () \<and>
   after (sendAnalytics w data s) = s \<and>
   (has_fetch w \<and> analytics_response w = Rejected \<longrightarrow>
      emitted (sendToCustomEndpoint w data s) =
        FetchPost ''/api/analytics'' data #
        (if sendBeacon w = Missing then [] else [Beacon ''/api/analytics'' data])) \<and>
   (\<not> has_fetch w \<longrightarrow>
      emitted (sendToCustomEndpoint w data s) =
        (if sendBeacon w = Missing then [] else [Beacon ''/api/analytics'' data])) \<and>
   (has_fetch w \<and> analytics_response w \<noteq> Rejected \<longrightarrow>
      emitted (sendToCustomEndpoint w data s) = [FetchPost ''/api/analytics'' data]) \<and>
   outcome (initiateDownload
     (w\<lparr>cloudflare := c, gtag := g, sendBeacon := b, analytics_response := r\<rparr>) source s) =
     outcome (initiateDownload w source s) \<and>
   after (initiateDownload
     (w\<lparr>cloudflare := c, gtag := g, sendBeacon := b, analytics_response := r\<rparr>) source s) =
     after (initiateDownload w source s) \<and>
   filter is_ui_update (emitted (initiateDownload
     (w\<lparr>cloudflare := c, gtag := g, sendBeacon := b, analytics_response := r\<rparr>) source s)) =
     filter is_ui_update (emitted (initiateDownload w source s)) \<and>
   (admitted w s \<and> download_succeeds w \<longrightarrow>
      outcome (initiateDownload (w\<lparr>analytics_response := Rejected\<rparr>) source s) = Inr True \<and>
      filter is_ui_update
        (emitted (initiateDownload (w\<lparr>analytics_response := Rejected\<rparr>) source s)) =
        [UpdateDownloadUI Preparing, UpdateDownloadUI Success])"
proof -
  let ?w = "w\<lparr>cloudflare := c, gtag := g, sendBeacon := b, analytics_response := r\<rparr>"
  have custom: "(has_fetch w \<and> analytics_response w = Rejected \<longrightarrow>
      emitted (sendToCustomEndpoint w data s) =
        FetchPost ''/api/analytics'' data #
        (if sendBeacon w = Missing then [] else [Beacon ''/api/analytics'' data])) \<and>
   (\<not> has_fetch w \<longrightarrow>
      emitted (sendToCustomEndpoint w data s) =
        (if sendBeacon w = Missing then [] else [Beacon ''/api/analytics'' data])) \<and>
   (has_fetch w \<and> analytics_response w \<noteq> Rejected \<longrightarrow>
      emitted (sendToCustomEndpoint w data s) = [FetchPost ''/api/analytics'' data])"
    by (simp add: emitted_def custom_endpoint_emitted)
  have same: "outcome (initiateDownload ?w source s) = outcome (initiateDownload w source s)"
    "filter is_ui_update (emitted (initiateDownload ?w source s)) =
       filter is_ui_update (emitted (initiateDownload w source s))"
    by (simp_all add: outcome_def emitted_def initiateDownload_fst initiateDownload_ui)
  have "recorded ?w s = recorded w s"
    by (simp add: recorded_def getReferrer_def)
  then have after: "after (initiateDownload ?w source s) = after (initiateDownload w source s)"
    by (simp add: after_def initiateDownload_after head_ok_def)
  have rej: "admitted (w\<lparr>analytics_response := Rejected\<rparr>) s = admitted w s"
    "download_succeeds (w\<lparr>analytics_response := Rejected\<rparr>) = download_succeeds w"
    by (simp_all add: admitted_def passes_iff environment_supported_def honeypot_clear_def
        download_succeeds_def head_ok_def)
  have "admitted w s \<and> download_succeeds w \<longrightarrow>
      outcome (initiateDownload (w\<lparr>analytics_response := Rejected\<rparr>) source s) = Inr True \<and>
      filter is_ui_update
        (emitted (initiateDownload (w\<lparr>analytics_response := Rejected\<rparr>) source s)) =
        [UpdateDownloadUI Preparing, UpdateDownloadUI Success]"
    by (simp add: outcome_def emitted_def initiateDownload_fst initiateDownload_ui rej)
  with custom same after show ?thesis
    by (simp add: outcome_def after_def)
qed

text \<open>
  A rejecting endpoint with a beacon, a browser without \<^verbatim>\<open>fetch\<close>, a working endpoint, and
  clicks with a rejecting endpoint and with every sink failing.
\<close>

theorem telemetry_failure_never_blocks_download_witness:
  "emitted (sendToCustomEndpoint (desktop\<lparr>analytics_response := Rejected\<rparr>) page_view alpha) =
     [FetchPost ''/api/analytics'' page_view, Beacon ''/api/analytics'' page_view] \<and>
   emitted (sendToCustomEndpoint (desktop\<lparr>has_fetch := False\<rparr>) page_view alpha) =
     [Beacon ''/api/analytics'' page_view] \<and>
   emitted (sendToCustomEndpoint desktop page_view alpha) =
     [FetchPost ''/api/analytics'' page_view] \<and>
   outcome (initiateDownload (desktop\<lparr>analytics_response := Rejected\<rparr>) ''primary_cta''
     (loaded desktop)) = Inr True \<and>
   filter is_ui_update (emitted (initiateDownload (desktop\<lparr>analytics_response := Rejected\<rparr>)
     ''primary_cta'' (loaded desktop))) = [UpdateDownloadUI Preparing, UpdateDownloadUI Success] \<and>
   outcome (initiateDownload
     (desktop\<lparr>cloudflare := Raises, gtag := Raises, sendBeacon := Raises,
        analytics_response := Rejected\<rparr>) ''primary_cta'' (loaded desktop)) = Inr True"
proof -
  note t = telemetry_failure_never_blocks_download
    [where data = page_view and c = Raises and g = Raises and b = Raises and r = Rejected
      and source = "''primary_cta''"]
  have "emitted (sendToCustomEndpoint (desktop\<lparr>analytics_response := Rejected\<rparr>) page_view
      alpha) = [FetchPost ''/api/analytics'' page_view, Beacon ''/api/analytics'' page_view]"
    using t [where w = "desktop\<lparr>analytics_response := Rejected\<rparr>" and s = alpha]
    by (simp add: desktop_sinks)
  moreover have "emitted (sendToCustomEndpoint (desktop\<lparr>has_fetch := False\<rparr>) page_view alpha) =
      [Beacon ''/api/analytics'' page_view]"
    using t [where w = "desktop\<lparr>has_fetch := False\<rparr>" and s = alpha]
    by (simp add: desktop_sinks)
  moreover have "emitted (sendToCustomEndpoint desktop page_view alpha) =
      [FetchPost ''/api/analytics'' page_view]"
    using t [where w = desktop and s = alpha]
    by (simp add: desktop_sinks)
  moreover have "outcome (initiateDownload (desktop\<lparr>analytics_response := Rejected\<rparr>)
        ''primary_cta'' (loaded desktop)) = Inr True \<and>
      filter is_ui_update (emitted (initiateDownload (desktop\<lparr>analytics_response := Rejected\<rparr>)
        ''primary_cta'' (loaded desktop))) =
        [UpdateDownloadUI Preparing, UpdateDownloadUI Success]"
    using t [where w = desktop and s = "loaded desktop"] admitted_desktop succeeds_desktop
    by blast
  moreover have "outcome (initiateDownload desktop ''primary_cta'' (loaded desktop)) = Inr True"
    using admitted_desktop succeeds_desktop
    by (simp add: outcome_def initiateDownload_fst)
  then have "outcome (initiateDownload
       (desktop\<lparr>cloudflare := Raises, gtag := Raises, sendBeacon := Raises,
          analytics_response := Rejected\<rparr>) ''primary_cta'' (loaded desktop)) = Inr True"
    using t [where w = desktop and s = "loaded desktop"] by simp
  ultimately show ?thesis by blast
qed

subsection \<open>Recording an attempt\<close>

text \<open>
  Claim C5, as the code has it: with \<^verbatim>\<open>localStorage\<close> available, \<^verbatim>\<open>updateRateLimit\<close> adds
  exactly one to the counter of the manager, stores that counter together with the current
  time as the window start, and changes nothing else and has no other effect. The window
  start is thus overwritten by every recorded attempt. A successful attempt as a whole
  changes the manager by this and by the stored conversion record only.
\<close>

theorem updateRateLimit_stamps_the_window:
  assumes "has_localStorage w"
  shows "updateRateLimit w s =
           (Inr (),
            s\<lparr>rateLimitCount := rateLimitCount s + 1,
              download_rate_limit :=
                Some \<lparr>count = rateLimitCount s + 1, windowStart = now w\<rparr>\<rparr>,
            []) \<and>
         (admitted w s \<and> download_succeeds w \<longrightarrow>
            after (initiateDownload w source s) =
              (recorded w s)\<lparr>rateLimitCount := rateLimitCount s + 1,
                download_rate_limit :=
                  Some \<lparr>count = rateLimitCount s + 1, windowStart = now w\<rparr>\<rparr>)"
  using assms
  by (simp add: updateRateLimit_def Let_def after_def initiateDownload_ok)

text \<open>A second recording at 5000 ms, and a first click at 1000 ms on the loaded page.\<close>

theorem updateRateLimit_stamps_the_window_witness:
  "has_localStorage (at_time 5000) \<and>
   updateRateLimit (at_time 5000)
     (alpha\<lparr>rateLimitCount := 1,
        download_rate_limit := Some \<lparr>count = 1, windowStart = 1000\<rparr>\<rparr>) =
     (Inr (),
      alpha\<lparr>rateLimitCount := 2,
        download_rate_limit := Some \<lparr>count = 2, windowStart = 5000\<rparr>\<rparr>,
      []) \<and>
   download_rate_limit (after (initiateDownload (at_time 1000) ''primary_cta'' (loaded desktop))) =
     Some \<lparr>count = 1, windowStart = 1000\<rparr>"
proof -
  have h: "has_localStorage (at_time 5000)" "has_localStorage (at_time 1000)"
    by (simp_all add: at_time_fields)
  have a: "admitted (at_time 1000) (loaded desktop)"
    by (simp add: admitted_def passes_iff checkRateLimit_def maxDownloadsPerWindow_def
        at_time_fields loaded_fields)
  show ?thesis
    using updateRateLimit_stamps_the_window [OF h(1), of
        "alpha\<lparr>rateLimitCount := 1,
           download_rate_limit := Some \<lparr>count = 1, windowStart = 1000\<rparr>\<rparr>"]
      updateRateLimit_stamps_the_window [OF h(2), of "loaded desktop" "''primary_cta''"] a
    by (simp add: at_time_fields loaded_fields recorded_def alpha_def)
qed

text \<open>
  The window start does not stay at the time of the first recorded attempt: after a click
  at 1000 ms it is 1000, and recording the next attempt at 5000 ms, alone or through a
  second click, moves it to 5000.
\<close>

theorem recording_an_attempt_moves_the_window_start:
  "map_option windowStart (download_rate_limit
     (after (initiateDownload (at_time 1000) ''primary_cta'' (loaded desktop)))) = Some 1000 \<and>
   map_option windowStart (download_rate_limit
     (after (updateRateLimit (at_time 5000)
       (after (initiateDownload (at_time 1000) ''primary_cta'' (loaded desktop)))))) = Some 5000 \<and>
   map_option windowStart (download_rate_limit
     (after (initiateDownload (at_time 5000) ''primary_cta''
       (after (initiateDownload (at_time 1000) ''primary_cta'' (loaded desktop)))))) = Some 5000"
proof -
  have a: "admitted (at_time 1000) (loaded desktop)"
    by (simp add: admitted_def passes_iff checkRateLimit_def maxDownloadsPerWindow_def
        at_time_fields loaded_fields)
  have s1: "fst (snd (initiateDownload (at_time 1000) ''primary_cta'' (loaded desktop))) =
      (recorded (at_time 1000) (loaded desktop))\<lparr>rateLimitCount := 1,
         download_rate_limit := Some \<lparr>count = 1, windowStart = 1000\<rparr>\<rparr>"
    using initiateDownload_ok(2) [OF a at_time_fields(3), of "''primary_cta''"]
    by (simp add: at_time_fields loaded_fields)
  have b: "admitted (at_time 5000)
      ((recorded (at_time 1000) (loaded desktop))\<lparr>rateLimitCount := 1,
         download_rate_limit := Some \<lparr>count = 1, windowStart = 1000\<rparr>\<rparr>)"
    by (simp add: admitted_def passes_iff checkRateLimit_def maxDownloadsPerWindow_def
        at_time_fields loaded_fields recorded_def)
  show ?thesis
    using initiateDownload_ok(2) [OF b at_time_fields(3), of "''primary_cta''"]
    by (simp add: after_def s1 updateRateLimit_def Let_def at_time_fields)
qed

subsection \<open>The rate limiter\<close>

text \<open>
  Claim C4, as the code has it, for attempts that do not overlap (each has returned before
  the next click). After every such sequence of attempts, whatever the browsers: the count
  has been raised by exactly the attempts that returned true, that is, whose download
  succeeded; it is at most the number of attempts above where it started; and from a start
  of at most 3 it never exceeds 3. On a page with a bot score of at most 50, in a browser
  with a supported environment and an empty honeypot, the next attempt is admitted when
  the count is below 3, so that from a count of 0 the first 3 attempts are admitted; and
  it is rejected with the rate-limit advisory, leaving everything as it was, when the
  count has reached 3. In particular, when every download succeeds, the first 3 attempts
  return true and every later one is rejected with the advisory.
\<close>

theorem rate_limit_counts_successful_downloads:
  assumes "s' = after (clicks ws source s)"
  shows "rateLimitCount s' =
           rateLimitCount s + count_list (fst (clicks ws source s)) (Inr True) \<and>
         rateLimitCount s' \<le> rateLimitCount s + length ws \<and>
         (rateLimitCount s \<le> maxDownloadsPerWindow \<longrightarrow>
            rateLimitCount s' \<le> maxDownloadsPerWindow) \<and>
         (botScore s \<le> 50 \<and> environment_supported w \<and> honeypot_clear w \<longrightarrow>
            (if rateLimitCount s' < maxDownloadsPerWindow
             then admitted w s' \<and>
                  outcome (initiateDownload w source s') = Inr (download_succeeds w) \<and>
                  filter is_advisory (emitted (initiateDownload w source s')) = []
             else initiateDownload w source s' = (Inr False, s', [rate_limit_advisory]))) \<and>
         ((\<forall>w \<in> set ws. healthy w) \<and> botScore s \<le> 50 \<and> rateLimitCount s = 0 \<longrightarrow>
            fst (clicks ws source s) =
              replicate (min (length ws) 3) (Inr True) @ replicate (length ws - 3) (Inr False) \<and>
            filter is_advisory (emitted (clicks ws source s)) =
              replicate (length ws - 3) rate_limit_advisory)"
proof -
  have next_attempt: "botScore s \<le> 50 \<and> environment_supported w \<and> honeypot_clear w \<longrightarrow>
            (if rateLimitCount s' < maxDownloadsPerWindow
             then admitted w s' \<and>
                  outcome (initiateDownload w source s') = Inr (download_succeeds w) \<and>
                  filter is_advisory (emitted (initiateDownload w source s')) = []
             else initiateDownload w source s' = (Inr False, s', [rate_limit_advisory]))"
  proof
    assume g: "botScore s \<le> 50 \<and> environment_supported w \<and> honeypot_clear w"
    with assms have p: "passes w s'"
      by (simp add: passes_iff after_def clicks_botScore)
    show "if rateLimitCount s' < maxDownloadsPerWindow
             then admitted w s' \<and>
                  outcome (initiateDownload w source s') = Inr (download_succeeds w) \<and>
                  filter is_advisory (emitted (initiateDownload w source s')) = []
             else initiateDownload w source s' = (Inr False, s', [rate_limit_advisory])"
    proof (cases "rateLimitCount s' < maxDownloadsPerWindow")
      case True
      with p have "admitted w s'"
        by (simp add: admitted_def checkRateLimit_def)
      with True show ?thesis
        by (simp add: outcome_def emitted_def initiateDownload_fst initiateDownload_advisory)
    next
      case False
      with p show ?thesis
        by (simp add: initiateDownload_limited checkRateLimit_def showRateLimitMessage_def
            effects_def rate_limit_advisory_def)
    qed
  qed
  have all_succeed: "(\<forall>w \<in> set ws. healthy w) \<and> botScore s \<le> 50 \<and> rateLimitCount s = 0 \<longrightarrow>
            fst (clicks ws source s) =
              replicate (min (length ws) 3) (Inr True) @ replicate (length ws - 3) (Inr False) \<and>
            filter is_advisory (emitted (clicks ws source s)) =
              replicate (length ws - 3) rate_limit_advisory"
    using clicks_healthy [of ws s source]
    by (simp add: emitted_def maxDownloadsPerWindow_def)
  from assms have "rateLimitCount s' =
      rateLimitCount s + count_list (fst (clicks ws source s)) (Inr True)"
    by (simp add: after_def clicks_count)
  moreover from assms have "rateLimitCount s' \<le> rateLimitCount s + length ws"
    by (simp add: after_def clicks_count_le)
  moreover from assms have "rateLimitCount s \<le> maxDownloadsPerWindow \<longrightarrow>
      rateLimitCount s' \<le> maxDownloadsPerWindow"
    by (simp add: after_def clicks_bound)
  ultimately show ?thesis
    using next_attempt all_succeed by blast
qed

text \<open>
  Three successful clicks at 1, 5 and 10 seconds, after which the click at 15 seconds is
  rejected; the same clicks with the file missing at the first, after which the count is 2
  and the click at 15 seconds is admitted and succeeds; and four successful clicks in a
  row.
\<close>

theorem rate_limit_counts_successful_downloads_witness:
  "rateLimitCount (after (clicks [at_time 1000, at_time 5000, at_time 10000] ''primary_cta''
     (loaded desktop))) = 3 \<and>
   initiateDownload (at_time 15000) ''primary_cta''
     (after (clicks [at_time 1000, at_time 5000, at_time 10000] ''primary_cta''
        (loaded desktop))) =
     (Inr False,
      after (clicks [at_time 1000, at_time 5000, at_time 10000] ''primary_cta''
        (loaded desktop)),
      [rate_limit_advisory]) \<and>
   rateLimitCount (after (clicks [(at_time 1000)\<lparr>head_response := Status 404\<rparr>, at_time 5000,
      at_time 10000] ''primary_cta'' (loaded desktop))) = 2 \<and>
   admitted (at_time 15000)
     (after (clicks [(at_time 1000)\<lparr>head_response := Status 404\<rparr>, at_time 5000,
        at_time 10000] ''primary_cta'' (loaded desktop))) \<and>
   outcome (initiateDownload (at_time 15000) ''primary_cta''
     (after (clicks [(at_time 1000)\<lparr>head_response := Status 404\<rparr>, at_time 5000,
        at_time 10000] ''primary_cta'' (loaded desktop)))) = Inr True \<and>
   fst (clicks [at_time 1000, at_time 5000, at_time 10000, at_time 15000] ''primary_cta''
     (loaded desktop)) = [Inr True, Inr True, Inr True, Inr False] \<and>
   filter is_advisory (emitted (clicks [at_time 1000, at_time 5000, at_time 10000,
     at_time 15000] ''primary_cta'' (loaded desktop))) = [rate_limit_advisory]"
proof -
  note t = rate_limit_counts_successful_downloads
    [OF refl, where source = "''primary_cta''" and s = "loaded desktop"]
  have a: "rateLimitCount (after (clicks [at_time 1000, at_time 5000, at_time 10000]
      ''primary_cta'' (loaded desktop))) = 3"
    using t [where ws = "[at_time 1000, at_time 5000, at_time 10000]" and w = "at_time 15000"]
    by (simp add: three_clicks loaded_fields)
  have b: "initiateDownload (at_time 15000) ''primary_cta''
     (after (clicks [at_time 1000, at_time 5000, at_time 10000] ''primary_cta''
        (loaded desktop))) =
     (Inr False,
      after (clicks [at_time 1000, at_time 5000, at_time 10000] ''primary_cta''
        (loaded desktop)),
      [rate_limit_advisory])"
    using t [where ws = "[at_time 1000, at_time 5000, at_time 10000]" and w = "at_time 15000"]
    by (simp add: a at_time_fields loaded_fields maxDownloadsPerWindow_def)
  have c: "rateLimitCount (after (clicks [(at_time 1000)\<lparr>head_response := Status 404\<rparr>,
      at_time 5000, at_time 10000] ''primary_cta'' (loaded desktop))) = 2"
    using t [where ws = "[(at_time 1000)\<lparr>head_response := Status 404\<rparr>, at_time 5000,
      at_time 10000]" and w = "at_time 15000"]
    by (simp add: three_clicks_one_failed loaded_fields)
  have d: "admitted (at_time 15000)
     (after (clicks [(at_time 1000)\<lparr>head_response := Status 404\<rparr>, at_time 5000,
        at_time 10000] ''primary_cta'' (loaded desktop))) \<and>
   outcome (initiateDownload (at_time 15000) ''primary_cta''
     (after (clicks [(at_time 1000)\<lparr>head_response := Status 404\<rparr>, at_time 5000,
        at_time 10000] ''primary_cta'' (loaded desktop)))) = Inr True"
    using t [where ws = "[(at_time 1000)\<lparr>head_response := Status 404\<rparr>, at_time 5000,
      at_time 10000]" and w = "at_time 15000"]
    by (simp add: c at_time_fields loaded_fields maxDownloadsPerWindow_def)
  have h: "\<forall>w \<in> set [at_time 1000, at_time 5000, at_time 10000, at_time 15000]. healthy w"
    by (simp add: healthy_at_time)
  have e: "fst (clicks [at_time 1000, at_time 5000, at_time 10000, at_time 15000] ''primary_cta''
     (loaded desktop)) = [Inr True, Inr True, Inr True, Inr False] \<and>
   filter is_advisory (emitted (clicks [at_time 1000, at_time 5000, at_time 10000,
     at_time 15000] ''primary_cta'' (loaded desktop))) = [rate_limit_advisory]"
    using t [where ws = "[at_time 1000, at_time 5000, at_time 10000, at_time 15000]"
      and w = "at_time 15000"] h
    by (simp add: loaded_fields numeral_3_eq_3)
  from a b c d e show ?thesis by blast
qed

text \<open>
  Two ways in which a fourth attempt within one window is admitted. The counter is raised
  by \<^verbatim>\<open>updateRateLimit\<close> after the download was verified, so an attempt that was admitted
  and failed is not counted: when the first of four clicks finds the file missing, the
  fourth click is admitted and succeeds, and no advisory is shown. And the counter is read
  by the gate and raised only after the HEAD request has settled: four clicks on a
  \<^verbatim>\<open>[data-download]\<close> link within 300 ms, each made while the earlier attempts wait for
  their requests, all pass the gate at a count of 0, all succeed, and leave a count of 4.
\<close>

theorem a_fourth_attempt_can_be_admitted:
  "fst (clicks [(at_time 1000)\<lparr>head_response := Status 404\<rparr>, at_time 5000, at_time 10000,
      at_time 15000] ''primary_cta'' (loaded desktop)) =
     [Inr False, Inr True, Inr True, Inr True] \<and>
   filter is_ui_update (emitted (clicks [(at_time 1000)\<lparr>head_response := Status 404\<rparr>,
      at_time 5000, at_time 10000, at_time 15000] ''primary_cta'' (loaded desktop))) =
     [UpdateDownloadUI Preparing, UpdateDownloadUI Error,
      UpdateDownloadUI Preparing, UpdateDownloadUI Success,
      UpdateDownloadUI Preparing, UpdateDownloadUI Success,
      UpdateDownloadUI Preparing, UpdateDownloadUI Success] \<and>
   filter is_advisory (emitted (clicks [(at_time 1000)\<lparr>head_response := Status 404\<rparr>,
      at_time 5000, at_time 10000, at_time 15000] ''primary_cta'' (loaded desktop))) = [] \<and>
   fst (overlapped [at_time 1000, at_time 1100, at_time 1200, at_time 1300]
      [at_time 2000, at_time 2100, at_time 2200, at_time 2300] ''secondary'' (loaded desktop)) =
     [Inr True, Inr True, Inr True, Inr True] \<and>
   rateLimitCount (after (overlapped [at_time 1000, at_time 1100, at_time 1200, at_time 1300]
      [at_time 2000, at_time 2100, at_time 2200, at_time 2300] ''secondary'' (loaded desktop))) =
     4"
proof -
  have "fst (clicks [(at_time 1000)\<lparr>head_response := Status 404\<rparr>, at_time 5000, at_time 10000,
      at_time 15000] ''primary_cta'' (loaded desktop)) =
     [Inr False, Inr True, Inr True, Inr True] \<and>
   filter is_ui_update (emitted (clicks [(at_time 1000)\<lparr>head_response := Status 404\<rparr>,
      at_time 5000, at_time 10000, at_time 15000] ''primary_cta'' (loaded desktop))) =
     [UpdateDownloadUI Preparing, UpdateDownloadUI Error,
      UpdateDownloadUI Preparing, UpdateDownloadUI Success,
      UpdateDownloadUI Preparing, UpdateDownloadUI Success,
      UpdateDownloadUI Preparing, UpdateDownloadUI Success] \<and>
   filter is_advisory (emitted (clicks [(at_time 1000)\<lparr>head_response := Status 404\<rparr>,
      at_time 5000, at_time 10000, at_time 15000] ''primary_cta'' (loaded desktop))) = []"
    by (simp add: emitted_def click_simps)
  with four_overlapping show ?thesis by blast
qed

text \<open>
  Claim C3 does not hold of the code: \<^verbatim>\<open>checkRateLimit\<close> only compares the counter of the
  manager with the maximum. For every manager whose counter has reached the maximum, and
  every browser that passes the security checks, at every time and whatever window is
  stored, the attempt is rejected with the rate-limit advisory and nothing changes: an
  expired window is never reset by the check.
\<close>

theorem checkRateLimit_never_normalises:
  assumes "passes w s" and "rateLimitCount s \<ge> maxDownloadsPerWindow"
  shows "\<not> checkRateLimit s \<and>
         initiateDownload w source s = (Inr False, s, [rate_limit_advisory])"
  using assms
  by (simp add: checkRateLimit_def initiateDownload_limited showRateLimitMessage_def
      effects_def rate_limit_advisory_def)

text \<open>
  The scenario of the claim: three clicks admitted in the first 10 seconds, a fourth
  rejected at second 15; the click at second 61 is rejected and the count stays 3, as is a
  click at second 200. The stored window starts at the third click, so that a reload of the
  page at second 61 keeps the count of 3 as well.
\<close>

theorem checkRateLimit_never_normalises_witness:
  "fst (clicks [at_time 1000, at_time 5000, at_time 10000, at_time 15000] ''primary_cta''
     (loaded desktop)) = [Inr True, Inr True, Inr True, Inr False] \<and>
   download_rate_limit (after (clicks [at_time 1000, at_time 5000, at_time 10000, at_time 15000]
     ''primary_cta'' (loaded desktop))) = Some \<lparr>count = 3, windowStart = 10000\<rparr> \<and>
   initiateDownload (at_time 61000) ''primary_cta''
     (after (clicks [at_time 1000, at_time 5000, at_time 10000, at_time 15000] ''primary_cta''
        (loaded desktop))) =
     (Inr False,
      after (clicks [at_time 1000, at_time 5000, at_time 10000, at_time 15000] ''primary_cta''
        (loaded desktop)),
      [rate_limit_advisory]) \<and>
   initiateDownload (at_time 200000) ''primary_cta''
     (after (clicks [at_time 1000, at_time 5000, at_time 10000, at_time 15000] ''primary_cta''
        (loaded desktop))) =
     (Inr False,
      after (clicks [at_time 1000, at_time 5000, at_time 10000, at_time 15000] ''primary_cta''
        (loaded desktop)),
      [rate_limit_advisory]) \<and>
   rateLimitCount (after (initRateLimiting (at_time 61000)
     (after (clicks [at_time 1000, at_time 5000, at_time 10000, at_time 15000] ''primary_cta''
        (loaded desktop))))) = 3"
proof -
  let ?s = "after (clicks [at_time 1000, at_time 5000, at_time 10000, at_time 15000]
     ''primary_cta'' (loaded desktop))"
  have r: "fst (clicks [at_time 1000, at_time 5000, at_time 10000, at_time 15000] ''primary_cta''
     (loaded desktop)) = [Inr True, Inr True, Inr True, Inr False]"
    by (simp add: click_simps)
  have p: "passes (at_time 61000) ?s" "passes (at_time 200000) ?s"
    by (simp_all add: passes_iff after_three_clicks at_time_fields)
  have c: "rateLimitCount ?s \<ge> maxDownloadsPerWindow"
    by (simp add: after_three_clicks maxDownloadsPerWindow_def)
  have i: "rateLimitCount (after (initRateLimiting (at_time 61000) ?s)) = 3"
    by (simp add: initRateLimiting_def window_after_three_clicks at_time_fields
        rateLimitWindow_def after_def[of "(_, _, _)"])
  show ?thesis
    using r i window_after_three_clicks
      checkRateLimit_never_normalises [OF p(1) c, of "''primary_cta''"]
      checkRateLimit_never_normalises [OF p(2) c, of "''primary_cta''"]
    by simp
qed

subsection \<open>The download token\<close>

text \<open>
  Claim C1 does not hold of the code: the token is the first 32 characters of the base64
  form of the serialised record, which encode the first 24 characters of the record, and
  the record starts with the venture name. For every venture name whose first twelve
  characters are plain, in every browser with \<^verbatim>\<open>crypto\<close> and for every manager of that
  venture, the token is the base64 form of the opening brace, the key and those twelve
  characters: it depends on nothing else, neither on the time nor on the nonce nor on the
  session.
\<close>

theorem token_is_the_venture_prefix:
  assumes "has_crypto w" and "12 \<le> length v" and "\<forall>c \<in> set (take 12 v). plain c"
  shows "generateDownloadToken w (s\<lparr>venture := v\<rparr>) = Inr (btoa (token_head v))"
proof -
  obtain rest where t: "\<And>nonce. tokenString w (s\<lparr>venture := v\<rparr>) nonce = token_head v @ rest nonce"
    using JSON_string_plain_prefix [OF assms(3)]
    by (simp add: tokenString_def token_head_def)
  have safe: "\<forall>c \<in> set (token_head v). of_char c < (128::nat) \<and> (of_char c :: nat) mod 64 < 62"
    using assms(3)
    by (auto simp: token_head_def JSON_string_def json_escape_def plain_def Let_def)
  from assms(2) have len: "length (token_head v) = 24"
    by (simp add: token_head_def JSON_string_def json_escape_def)
  then have "length (token_head v) mod 3 = 0"
    by simp
  from btoa_plain [OF safe this] len
  have "\<And>ys. filter (\<lambda>c. c \<notin> set ''+/='') (btoa (token_head v @ ys)) =
          btoa (token_head v) @ filter (\<lambda>c. c \<notin> set ''+/='') (btoa ys)"
    and "length (btoa (token_head v)) = 32"
    by simp_all
  with assms(1) t show ?thesis
    by (simp add: generateDownloadToken_def generateNonce_def Let_def)
qed

text \<open>
  On the page of Alpha Workspace, two tokens of one session, issued a minute apart with
  different nonces, are the same string.
\<close>

theorem token_is_the_venture_prefix_witness:
  "now (at_time 1700000000000) \<noteq>
     now ((at_time 1700000060000)\<lparr>random_bytes := (\<lambda>i. 0xC5)\<rparr>) \<and>
   generateNonce (at_time 1700000000000) \<noteq>
     generateNonce ((at_time 1700000060000)\<lparr>random_bytes := (\<lambda>i. 0xC5)\<rparr>) \<and>
   generateDownloadToken (at_time 1700000000000) (loaded desktop) =
     Inr ''eyJ2ZW50dXJlIjoiQWxwaGEgV29ya3Nw'' \<and>
   generateDownloadToken ((at_time 1700000060000)\<lparr>random_bytes := (\<lambda>i. 0xC5)\<rparr>)
     (loaded desktop) = Inr ''eyJ2ZW50dXJlIjoiQWxwaGEgV29ya3Nw''"
proof -
  have h: "has_crypto (at_time 1700000000000)"
    "has_crypto ((at_time 1700000060000)\<lparr>random_bytes := (\<lambda>i. 0xC5)\<rparr>)"
    by (simp_all add: at_time_fields)
  have l: "12 \<le> length ''Alpha Workspace''"
    by simp
  have p: "\<forall>c \<in> set (take 12 ''Alpha Workspace''). plain c"
    by (simp add: plain_def)
  have b: "btoa (token_head ''Alpha Workspace'') = ''eyJ2ZW50dXJlIjoiQWxwaGEgV29ya3Nw''"
    by (simp add: token_head_def JSON_string_def json_escape_def base64_char_def)
  show ?thesis
    using token_is_the_venture_prefix [OF h(1) l p, of "loaded desktop"]
      token_is_the_venture_prefix [OF h(2) l p, of "loaded desktop"]
    by (simp add: loaded_venture nonce_desktop nonce_later at_time_fields b)
qed

end
